theory Spec2Isabelle
  imports Complex_Main "HOL-Library.Multiset" "HOL-Library.List_Lexorder" "HOL-Library.Char_ord"
    "HOL-Library.Type_Length"
begin

section \<open>Data model of backend/server.py\<close>

text \<open>
  The record store (MongoDB) is modelled as one list per collection, in insertion order;
  \<open>find_one\<close> returns the first match. The semantic index (FAISS) is the list of its
  stored documents, once as the process-wide cached handle \<open>vector_store\<close> and once as
  the copy saved under \<open>FAISS_INDEX_PATH\<close>. Python floats are an arbitrary type \<open>'f\<close>
  that is linearly ordered and has \<open>1\<close>, \<open>+\<close> and \<open>/\<close>; no law of arithmetic is assumed
  of them in the endpoints, and the type \<open>pyfloat\<close> below instantiates the arithmetic
  with rounding. Timestamps are the ISO strings the code stores, ordered as the record store
  orders strings (lexicographically by character code).
\<close>

datatype RoleType = Admin | Engineer | Technician | Viewer

fun ROLE_PERMISSIONS :: "RoleType \<Rightarrow> string list" where
  "ROLE_PERMISSIONS Admin = [''upload_docs'', ''delete_docs'', ''manage_users'', ''query_all'', ''view_all'']"
| "ROLE_PERMISSIONS Engineer = [''upload_docs'', ''query_all'', ''view_all'']"
| "ROLE_PERMISSIONS Technician = [''query_sops'', ''view_sops'']"
| "ROLE_PERMISSIONS Viewer = [''query_limited'', ''view_limited'']"

text \<open>An \<open>HTTPException\<close> carries its status code and detail; any other exception that
  leaves an endpoint is \<open>Unhandled\<close> (the framework answers 500).\<close>

datatype error = HTTPException nat string | Unhandled

datatype msg_role = User | Assistant

record chunk_metadata =
  md_doc_id :: string
  md_title :: string
  md_doc_type :: "string option"
  md_chunk_index :: nat

record Document =
  page_content :: string
  metadata :: chunk_metadata

record document_record =
  d_id :: string
  d_title :: string
  d_description :: string
  d_doc_type :: string
  d_filename :: string
  d_file_path :: string
  d_uploaded_by :: string
  d_uploaded_by_name :: string
  d_created_at :: string
  d_chunk_count :: nat
  d_file_size :: nat

record 'f source =
  s_doc_id :: string
  s_title :: string
  s_doc_type :: string
  relevance_score :: 'f

record chat_session =
  cs_id :: string
  cs_user_id :: string
  cs_title :: string
  cs_created_at :: string
  cs_updated_at :: string
  message_count :: int

record 'f message_doc =
  m_id :: string
  m_session_id :: string
  m_role :: msg_role
  m_content :: string
  m_sources :: "'f source list option"
  m_timestamp :: string

record 'f ChatMessage =
  cm_role :: msg_role
  cm_content :: string
  cm_sources :: "'f source list option"
  cm_timestamp :: string

record ChatRequest =
  message :: string
  session_id :: "string option"

record 'f ChatResponse =
  r_session_id :: string
  r_message :: "'f ChatMessage"
  r_sources :: "'f source list"

record user_doc =
  u_id :: string
  u_email :: string
  u_name :: string
  u_role :: RoleType
  u_password_hash :: string
  u_created_at :: string
  u_is_active :: bool

record 'f state =
  users :: "user_doc list"
  documents :: "document_record list"
  chat_sessions :: "chat_session list"
  chat_messages :: "'f message_doc list"
  vector_store :: "Document list option"
  faiss_index :: "Document list option"
  uploads :: "(string \<times> string) list"

subsection \<open>Record store operations\<close>

fun update_one :: "('a \<Rightarrow> bool) \<Rightarrow> ('a \<Rightarrow> 'a) \<Rightarrow> 'a list \<Rightarrow> 'a list" where
  "update_one p f [] = []"
| "update_one p f (x # xs) = (if p x then f x # xs else x # update_one p f xs)"

fun delete_one :: "('a \<Rightarrow> bool) \<Rightarrow> 'a list \<Rightarrow> 'a list" where
  "delete_one p [] = []"
| "delete_one p (x # xs) = (if p x then xs else x # delete_one p xs)"

definition delete_many :: "('a \<Rightarrow> bool) \<Rightarrow> 'a list \<Rightarrow> 'a list" where
  "delete_many p xs = filter (\<lambda>x. \<not> p x) xs"

definition find_one :: "('a \<Rightarrow> bool) \<Rightarrow> 'a list \<Rightarrow> 'a option" where
  "find_one p xs = find p xs"

section \<open>VectorStoreManager\<close>

text \<open>
  What the collaborators do is a parameter: the text splitter, the distance between the
  embedded query and a stored chunk, and whether each call that can raise does so.
\<close>

record 'f store_env =
  split_text :: "string \<Rightarrow> string list"
  dist :: "string \<Rightarrow> Document \<Rightarrow> 'f"
  load_local_ok :: bool
  from_texts_ok :: bool
  save_local_ok :: bool
  fallback_ok :: bool
  add_texts_ok :: bool
  add_save_ok :: bool
  search_ok :: bool

definition placeholder :: Document where
  "placeholder =
     \<lparr>page_content = ''RAGineer - Industrial Engineering QA System initialized'',
      metadata = \<lparr>md_doc_id = ''system'', md_title = ''System'',
                  md_doc_type = None, md_chunk_index = 0\<rparr>\<rparr>"

text \<open>The \<open>except\<close> branch of \<open>load_or_create_store\<close>: a fresh in-memory index that is
  not saved; if building it raises too, the exception leaves the function.\<close>

definition store_fallback ::
  "('f, 'x) store_env_scheme \<Rightarrow> 'f state \<Rightarrow> 'f state \<times> (error + Document list)" where
  "store_fallback e s =
     (if fallback_ok e then (s\<lparr>vector_store := Some [placeholder]\<rparr>, Inr [placeholder])
      else (s, Inl Unhandled))"

definition load_or_create_store ::
  "('f, 'x) store_env_scheme \<Rightarrow> 'f state \<Rightarrow> 'f state \<times> (error + Document list)" where
  "load_or_create_store e s =
     (case vector_store s of
        Some st \<Rightarrow> (s, Inr st)
      | None \<Rightarrow>
          (case faiss_index s of
             Some saved \<Rightarrow>
               if load_local_ok e then (s\<lparr>vector_store := Some saved\<rparr>, Inr saved)
               else store_fallback e s
           | None \<Rightarrow>
               if \<not> from_texts_ok e then store_fallback e s
               else if save_local_ok e
                 then (s\<lparr>vector_store := Some [placeholder], faiss_index := Some [placeholder]\<rparr>,
                       Inr [placeholder])
                 else store_fallback e (s\<lparr>vector_store := Some [placeholder]\<rparr>)))"

definition chunk_documents :: "string \<Rightarrow> string \<Rightarrow> string \<Rightarrow> string list \<Rightarrow> Document list" where
  "chunk_documents doc_id title doc_type chunks =
     map (\<lambda>i. \<lparr>page_content = chunks ! i,
               metadata = \<lparr>md_doc_id = doc_id, md_title = title,
                           md_doc_type = Some doc_type, md_chunk_index = i\<rparr>\<rparr>)
         [0 ..< length chunks]"

definition add_document ::
  "('f, 'x) store_env_scheme \<Rightarrow> 'f state \<Rightarrow> string \<Rightarrow> string \<Rightarrow> string \<Rightarrow> string
     \<Rightarrow> 'f state \<times> (error + nat)" where
  "add_document e s doc_id title content doc_type =
     (let chunks = split_text e content in
      case load_or_create_store e s of
        (s1, Inl err) \<Rightarrow> (s1, Inl err)
      | (s1, Inr st) \<Rightarrow>
          if \<not> add_texts_ok e then (s1, Inl Unhandled)
          else
            let st' = st @ chunk_documents doc_id title doc_type chunks;
                s2 = s1\<lparr>vector_store := Some st'\<rparr>
            in if \<not> add_save_ok e then (s2, Inl Unhandled)
               else (s2\<lparr>faiss_index := Some st'\<rparr>, Inr (length chunks)))"

text \<open>The index's nearest-neighbour search: the \<open>k\<close> stored chunks closest to the query,
  closest first, each with its distance.\<close>

definition similarity_search_with_score ::
  "('f::linorder, 'x) store_env_scheme \<Rightarrow> Document list \<Rightarrow> string \<Rightarrow> nat \<Rightarrow> (Document \<times> 'f) list" where
  "similarity_search_with_score e st query k =
     take k (sort_key snd (map (\<lambda>d. (d, dist e query d)) st))"

definition in_doc_types :: "string list \<Rightarrow> Document \<times> 'f \<Rightarrow> bool" where
  "in_doc_types doc_types r =
     (case md_doc_type (metadata (fst r)) of None \<Rightarrow> False | Some t \<Rightarrow> t \<in> set doc_types)"

definition search ::
  "('f::linorder, 'x) store_env_scheme \<Rightarrow> 'f state \<Rightarrow> string \<Rightarrow> nat \<Rightarrow> string list option
     \<Rightarrow> 'f state \<times> (error + (Document \<times> 'f) list)" where
  "search e s query k doc_types =
     (case load_or_create_store e s of
        (s1, Inl err) \<Rightarrow> (s1, Inl err)
      | (s1, Inr st) \<Rightarrow>
          if \<not> search_ok e then (s1, Inl Unhandled)
          else
            (case doc_types of
               Some (t # ts) \<Rightarrow>
                 (s1, Inr (take k (filter (in_doc_types (t # ts))
                                     (similarity_search_with_score e st query (k * 2)))))
             | _ \<Rightarrow> (s1, Inr (similarity_search_with_score e st query k))))"

section \<open>Chat endpoint\<close>

text \<open>
  What the chat request reads from outside: the identifiers \<open>uuid4\<close> returns, the clock
  readings of the successive \<open>datetime.now\<close> calls, and the language-model collaborator,
  whose \<open>send_message\<close> either returns a text or raises (\<open>None\<close>).
\<close>

record chat_env =
  uuid_session :: string
  uuid_user_msg :: string
  uuid_assistant_msg :: string
  uuid_llm_hex :: string
  now_session_created :: string
  now_session_updated :: string
  now_user_msg :: string
  now_assistant_msg :: string
  now_update :: string
  send_message :: "string \<Rightarrow> string \<Rightarrow> string \<Rightarrow> string option"

fun join :: "string \<Rightarrow> string list \<Rightarrow> string" where
  "join sep [] = []"
| "join sep [x] = x"
| "join sep (x # y # ys) = x @ sep @ join sep (y # ys)"

definition system_prompt :: "string \<Rightarrow> string" where
  "system_prompt context =
     ''You are RAGineer, an expert industrial engineering QA assistant. \<newline>'' @
     ''You help engineers, technicians, and operators find information in technical documentation including SOPs, manuals, and compliance documents.\<newline>'' @
     ''\<newline>'' @
     ''Guidelines:\<newline>'' @
     ''- Provide precise, technical answers based on the provided context\<newline>'' @
     ''- Always cite which document your answer comes from\<newline>'' @
     ''- If the context doesn'' @ [CHR 0x27] @ ''t contain relevant information, clearly state that\<newline>'' @
     ''- Use proper technical terminology\<newline>'' @
     ''- Format responses clearly with bullet points or numbered steps when appropriate\<newline>'' @
     ''- Highlight safety-critical information when relevant\<newline>'' @
     ''\<newline>'' @
     ''Context from documents:\<newline>'' @ context"

definition context_part :: "Document \<Rightarrow> string" where
  "context_part doc =
     ''[From: '' @ md_title (metadata doc) @ '']\<newline>'' @ page_content doc"

definition make_source :: "string \<Rightarrow> document_record \<Rightarrow> 'f::{one,plus,inverse} \<Rightarrow> 'f source" where
  "make_source doc_id doc_info score =
     \<lparr>s_doc_id = doc_id, s_title = d_title doc_info, s_doc_type = d_doc_type doc_info,
      relevance_score = 1 / (1 + score)\<rparr>"

text \<open>The \<open>for doc, score in search_results\<close> loop, over its three accumulators
  \<open>context_parts\<close>, \<open>sources\<close> and \<open>seen_docs\<close>.\<close>

fun chat_loop ::
  "document_record list \<Rightarrow> (Document \<times> 'f::{one,plus,inverse}) list
     \<Rightarrow> string list \<times> 'f source list \<times> string set
     \<Rightarrow> string list \<times> 'f source list \<times> string set" where
  "chat_loop docs [] acc = acc"
| "chat_loop docs ((doc, score) # rest) (context_parts, sources, seen_docs) =
     (if md_doc_id (metadata doc) = ''system''
      then chat_loop docs rest (context_parts, sources, seen_docs)
      else
        let doc_id = md_doc_id (metadata doc);
            sources' =
              (if doc_id \<notin> seen_docs
               then (case find_one (\<lambda>d. d_id d = doc_id) docs of
                       Some doc_info \<Rightarrow> sources @ [make_source doc_id doc_info score]
                     | None \<Rightarrow> sources)
               else sources);
            seen_docs' = (if doc_id \<notin> seen_docs then insert doc_id seen_docs else seen_docs)
        in chat_loop docs rest (context_parts @ [context_part doc], sources', seen_docs'))"

definition role_doc_types :: "RoleType \<Rightarrow> string list option" where
  "role_doc_types role =
     (if role = Technician then Some [''sop'']
      else if role = Viewer then Some [''sop'', ''manual'']
      else None)"

definition session_title :: "string \<Rightarrow> string" where
  "session_title msg = (if length msg > 50 then take 50 msg @ ''...'' else msg)"

definition fallback_text :: "'f source list \<Rightarrow> string" where
  "fallback_text sources =
     ''I found relevant information in the following documents: '' @
     join '', '' (map s_title sources) @
     ''. However, I encountered an error generating a detailed response. Please try again.''"

text \<open>\<open>if not session_id\<close>: an absent and an empty session id both start a new session.\<close>

definition resolve_session ::
  "chat_env \<Rightarrow> 'f state \<Rightarrow> ChatRequest \<Rightarrow> user_doc \<Rightarrow> string \<times> 'f state" where
  "resolve_session ce s request current_user =
     (let fresh =
        (uuid_session ce,
         s\<lparr>chat_sessions := chat_sessions s @
              [\<lparr>cs_id = uuid_session ce, cs_user_id = u_id current_user,
                cs_title = session_title (message request),
                cs_created_at = now_session_created ce,
                cs_updated_at = now_session_updated ce,
                message_count = 0\<rparr>]\<rparr>)
      in case session_id request of
           None \<Rightarrow> fresh
         | Some sid \<Rightarrow> if sid = [] then fresh else (sid, s))"

definition chat ::
  "('f::{linorder,one,plus,inverse}, 'x) store_env_scheme \<Rightarrow> chat_env \<Rightarrow> 'f state
     \<Rightarrow> ChatRequest \<Rightarrow> user_doc \<Rightarrow> 'f state \<times> (error + 'f ChatResponse)" where
  "chat se ce s request current_user =
     (case search se s (message request) 5 (role_doc_types (u_role current_user)) of
        (s1, Inl err) \<Rightarrow> (s1, Inl err)
      | (s1, Inr search_results) \<Rightarrow>
          (case chat_loop (documents s1) search_results ([], [], {}) of
             (context_parts, sources, seen_docs) \<Rightarrow>
               (case resolve_session ce s1 request current_user of
                  (sid, s2) \<Rightarrow>
                    let context = (if context_parts \<noteq> []
                                   then join ''\<newline>\<newline>---\<newline>\<newline>'' context_parts
                                   else ''No relevant documents found.'');
                        user_msg = \<lparr>m_id = uuid_user_msg ce, m_session_id = sid, m_role = User,
                                    m_content = message request, m_sources = None,
                                    m_timestamp = now_user_msg ce\<rparr>;
                        s3 = s2\<lparr>chat_messages := chat_messages s2 @ [user_msg]\<rparr>;
                        response_text =
                          (case send_message ce (''rag_'' @ sid @ ''_'' @ uuid_llm_hex ce)
                                  (system_prompt context) (message request) of
                             Some t \<Rightarrow> t
                           | None \<Rightarrow> fallback_text sources);
                        assistant_msg = \<lparr>m_id = uuid_assistant_msg ce, m_session_id = sid,
                                         m_role = Assistant, m_content = response_text,
                                         m_sources = Some sources,
                                         m_timestamp = now_assistant_msg ce\<rparr>;
                        s4 = s3\<lparr>chat_messages := chat_messages s3 @ [assistant_msg]\<rparr>;
                        s5 = s4\<lparr>chat_sessions :=
                                  update_one (\<lambda>c. cs_id c = sid)
                                    (\<lambda>c. c\<lparr>cs_updated_at := now_update ce,
                                           message_count := message_count c + 2\<rparr>)
                                    (chat_sessions s4)\<rparr>
                    in (s5, Inr \<lparr>r_session_id = sid,
                                 r_message = \<lparr>cm_role = Assistant, cm_content = response_text,
                                              cm_sources = Some sources,
                                              cm_timestamp = now_assistant_msg ce\<rparr>,
                                 r_sources = sources\<rparr>))))"

section \<open>Session endpoints\<close>

definition to_ChatMessage :: "'f message_doc \<Rightarrow> 'f ChatMessage" where
  "to_ChatMessage m =
     \<lparr>cm_role = m_role m, cm_content = m_content m, cm_sources = m_sources m,
      cm_timestamp = m_timestamp m\<rparr>"

definition get_session_messages ::
  "'f state \<Rightarrow> string \<Rightarrow> user_doc \<Rightarrow> error + 'f ChatMessage list" where
  "get_session_messages s sid current_user =
     (case find_one (\<lambda>c. cs_id c = sid \<and> cs_user_id c = u_id current_user) (chat_sessions s) of
        None \<Rightarrow> Inl (HTTPException 404 ''Session not found'')
      | Some session \<Rightarrow>
          Inr (map to_ChatMessage
                 (take 1000 (sort_key m_timestamp
                    (filter (\<lambda>m. m_session_id m = sid) (chat_messages s))))))"

definition delete_session ::
  "'f state \<Rightarrow> string \<Rightarrow> user_doc \<Rightarrow> 'f state \<times> (error + string)" where
  "delete_session s sid current_user =
     (case find_one (\<lambda>c. cs_id c = sid \<and> cs_user_id c = u_id current_user) (chat_sessions s) of
        None \<Rightarrow> (s, Inl (HTTPException 404 ''Session not found''))
      | Some session \<Rightarrow>
          let s1 = s\<lparr>chat_messages := delete_many (\<lambda>m. m_session_id m = sid) (chat_messages s)\<rparr>;
              s2 = s1\<lparr>chat_sessions := delete_one (\<lambda>c. cs_id c = sid) (chat_sessions s1)\<rparr>
          in (s2, Inr ''Session deleted''))"

section \<open>Authentication helpers and user endpoints\<close>

definition check_permission :: "user_doc \<Rightarrow> string \<Rightarrow> error option" where
  "check_permission user permission =
     (if permission \<notin> set (ROLE_PERMISSIONS (u_role user))
      then Some (HTTPException 403 (''Permission denied: '' @ permission))
      else None)"

text \<open>A registration request as validated by \<open>UserCreate\<close>: the role is one of the four
  literals, or omitted, in which case the model's default \<open>viewer\<close> is used.\<close>

record UserCreate =
  uc_email :: string
  uc_name :: string
  uc_role :: "RoleType option"
  uc_password :: string

definition UserCreate_role :: "UserCreate \<Rightarrow> RoleType" where
  "UserCreate_role user = (case uc_role user of None \<Rightarrow> Viewer | Some r \<Rightarrow> r)"

record UserResponse =
  ur_id :: string
  ur_email :: string
  ur_name :: string
  ur_role :: RoleType
  ur_created_at :: string
  ur_is_active :: bool

record TokenResponse =
  access_token :: string
  token_type :: string
  token_user :: UserResponse

record UserUpdate =
  uu_name :: "string option"
  uu_role :: "RoleType option"
  uu_is_active :: "bool option"

record register_env =
  uuid_user :: string
  hash_password :: "string \<Rightarrow> string"
  now_registered :: string
  create_token :: "string \<Rightarrow> string \<Rightarrow> RoleType \<Rightarrow> string"

text \<open>\<open>register\<close> is the only endpoint besides login and the health probes that does not
  depend on \<open>get_current_user\<close>: it takes the request body and nothing else.\<close>

definition register ::
  "register_env \<Rightarrow> 'f state \<Rightarrow> UserCreate \<Rightarrow> 'f state \<times> (error + TokenResponse)" where
  "register re s user =
     (case find_one (\<lambda>u. u_email u = uc_email user) (users s) of
        Some existing \<Rightarrow> (s, Inl (HTTPException 400 ''Email already registered''))
      | None \<Rightarrow>
          let user_id = uuid_user re;
              user_doc = \<lparr>u_id = user_id, u_email = uc_email user, u_name = uc_name user,
                          u_role = UserCreate_role user,
                          u_password_hash = hash_password re (uc_password user),
                          u_created_at = now_registered re, u_is_active = True\<rparr>;
              s1 = s\<lparr>users := users s @ [user_doc]\<rparr>;
              token = create_token re user_id (uc_email user) (UserCreate_role user)
          in (s1, Inr \<lparr>access_token = token, token_type = ''bearer'',
                        token_user = \<lparr>ur_id = user_id, ur_email = uc_email user,
                                       ur_name = uc_name user, ur_role = UserCreate_role user,
                                       ur_created_at = u_created_at user_doc,
                                       ur_is_active = True\<rparr>\<rparr>))"

definition to_UserResponse :: "user_doc \<Rightarrow> UserResponse" where
  "to_UserResponse u =
     \<lparr>ur_id = u_id u, ur_email = u_email u, ur_name = u_name u, ur_role = u_role u,
      ur_created_at = u_created_at u, ur_is_active = u_is_active u\<rparr>"

definition apply_update :: "UserUpdate \<Rightarrow> user_doc \<Rightarrow> user_doc" where
  "apply_update update u =
     u\<lparr>u_name := (case uu_name update of None \<Rightarrow> u_name u | Some n \<Rightarrow> n),
       u_role := (case uu_role update of None \<Rightarrow> u_role u | Some r \<Rightarrow> r),
       u_is_active := (case uu_is_active update of None \<Rightarrow> u_is_active u | Some a \<Rightarrow> a)\<rparr>"

definition update_user ::
  "'f state \<Rightarrow> string \<Rightarrow> UserUpdate \<Rightarrow> user_doc \<Rightarrow> 'f state \<times> (error + UserResponse)" where
  "update_user s user_id update current_user =
     (case check_permission current_user ''manage_users'' of
        Some err \<Rightarrow> (s, Inl err)
      | None \<Rightarrow>
          (case find_one (\<lambda>u. u_id u = user_id) (users s) of
             None \<Rightarrow> (s, Inl (HTTPException 404 ''User not found''))
           | Some user \<Rightarrow>
               let s1 = s\<lparr>users := update_one (\<lambda>u. u_id u = user_id) (apply_update update) (users s)\<rparr>
               in (case find_one (\<lambda>u. u_id u = user_id) (users s1) of
                     None \<Rightarrow> (s1, Inl Unhandled)
                   | Some updated_user \<Rightarrow> (s1, Inr (to_UserResponse updated_user)))))"

definition delete_user ::
  "'f state \<Rightarrow> string \<Rightarrow> user_doc \<Rightarrow> 'f state \<times> (error + string)" where
  "delete_user s user_id current_user =
     (case check_permission current_user ''manage_users'' of
        Some err \<Rightarrow> (s, Inl err)
      | None \<Rightarrow>
          if user_id = u_id current_user then (s, Inl (HTTPException 400 ''Cannot delete yourself''))
          else if find_one (\<lambda>u. u_id u = user_id) (users s) = None
            then (s, Inl (HTTPException 404 ''User not found''))
            else (s\<lparr>users := delete_one (\<lambda>u. u_id u = user_id) (users s)\<rparr>, Inr ''User deleted''))"

section \<open>Document endpoints\<close>

text \<open>
  What an upload reads from outside: the path and string functions of the standard
  library, the text extractors (the PDF and DOCX ones may raise, \<open>None\<close>; the plain-text
  one decodes with errors ignored and cannot), the generated document id, the clock, and
  whether writing the raw file and inserting the record succeed. The document type is the
  unvalidated string of the request; the response is built, and validated, only after the
  record is inserted.
\<close>

record upload_env =
  path_suffix :: "string \<Rightarrow> string"
  path_stem :: "string \<Rightarrow> string"
  str_lower :: "string \<Rightarrow> string"
  extract_text_from_pdf :: "string \<Rightarrow> string option"
  extract_text_from_docx :: "string \<Rightarrow> string option"
  extract_text_from_txt :: "string \<Rightarrow> string"
  uuid_doc :: string
  uploads_path :: string
  now_created :: string
  file_write_ok :: bool
  insert_ok :: bool

record DocumentResponse =
  dr_id :: string
  dr_title :: string
  dr_description :: string
  dr_doc_type :: string
  dr_filename :: string
  dr_uploaded_by :: string
  dr_uploaded_by_name :: string
  dr_created_at :: string
  dr_chunk_count :: nat
  dr_file_size :: nat

definition to_DocumentResponse :: "document_record \<Rightarrow> DocumentResponse" where
  "to_DocumentResponse d =
     \<lparr>dr_id = d_id d, dr_title = d_title d, dr_description = d_description d,
      dr_doc_type = d_doc_type d, dr_filename = d_filename d, dr_uploaded_by = d_uploaded_by d,
      dr_uploaded_by_name = d_uploaded_by_name d, dr_created_at = d_created_at d,
      dr_chunk_count = d_chunk_count d, dr_file_size = d_file_size d\<rparr>"

text \<open>Building the response validates it: \<open>doc_type\<close> must be one of the literals of
  \<open>DocumentBase\<close>, or the constructor raises. The other fields have the types the
  response model asks for.\<close>

definition DocumentBase_doc_types :: "string list" where
  "DocumentBase_doc_types = [''sop'', ''manual'', ''compliance'', ''other'']"

definition DocumentResponse_of :: "document_record \<Rightarrow> error + DocumentResponse" where
  "DocumentResponse_of d =
     (if d_doc_type d \<in> set DocumentBase_doc_types then Inr (to_DocumentResponse d)
      else Inl Unhandled)"

text \<open>The whitespace of \<open>str.strip\<close>, among the characters a \<open>char\<close> can hold.\<close>

definition isspace :: "char \<Rightarrow> bool" where
  "isspace c = (of_char c \<in> {9, 10, 11, 12, 13, 28, 29, 30, 31, 32, 133, 160 :: nat})"

definition strip :: "string \<Rightarrow> string" where
  "strip t = rev (dropWhile isspace (rev (dropWhile isspace t)))"

definition allowed_extensions :: "string list" where
  "allowed_extensions = [''.pdf'', ''.docx'', ''.txt'']"

definition extract_text :: "upload_env \<Rightarrow> string \<Rightarrow> string \<Rightarrow> string option" where
  "extract_text ue file_ext content =
     (if file_ext = ''.pdf'' then extract_text_from_pdf ue content
      else if file_ext = ''.docx'' then extract_text_from_docx ue content
      else Some (extract_text_from_txt ue content))"

definition upload_document ::
  "('f, 'x) store_env_scheme \<Rightarrow> upload_env \<Rightarrow> 'f state \<Rightarrow> string \<Rightarrow> string \<Rightarrow> string
     \<Rightarrow> string \<Rightarrow> string \<Rightarrow> user_doc \<Rightarrow> 'f state \<times> (error + DocumentResponse)" where
  "upload_document se ue s filename content title description doc_type current_user =
     (case check_permission current_user ''upload_docs'' of
        Some err \<Rightarrow> (s, Inl err)
      | None \<Rightarrow>
          let file_ext = str_lower ue (path_suffix ue filename) in
          if file_ext \<notin> set allowed_extensions
          then (s, Inl (HTTPException 400
                  (''File type not supported. Allowed: ['' @ [CHR 0x27] @ ''.pdf'' @ [CHR 0x27]
                     @ '', '' @ [CHR 0x27] @ ''.docx'' @ [CHR 0x27]
                     @ '', '' @ [CHR 0x27] @ ''.txt'' @ [CHR 0x27] @ '']'')))
          else
            let file_size = length content in
            (case extract_text ue file_ext content of
               None \<Rightarrow> (s, Inl (HTTPException 400 ''Could not extract text from file''))
             | Some text_content \<Rightarrow>
                 if strip text_content = []
                 then (s, Inl (HTTPException 400 ''No text content found in file''))
                 else
                   let doc_id = uuid_doc ue;
                       doc_title = (if title \<noteq> [] then title else path_stem ue filename)
                   in (case add_document se s doc_id doc_title text_content doc_type of
                         (s1, Inl err) \<Rightarrow> (s1, Inl err)
                       | (s1, Inr chunk_count) \<Rightarrow>
                           if \<not> file_write_ok ue then (s1, Inl Unhandled)
                           else
                             let file_path = uploads_path ue @ ''/'' @ doc_id @ file_ext;
                                 s2 = s1\<lparr>uploads := uploads s1 @ [(file_path, content)]\<rparr>;
                                 doc_record =
                                   \<lparr>d_id = doc_id, d_title = doc_title,
                                    d_description = description, d_doc_type = doc_type,
                                    d_filename = filename, d_file_path = file_path,
                                    d_uploaded_by = u_id current_user,
                                    d_uploaded_by_name = u_name current_user,
                                    d_created_at = now_created ue,
                                    d_chunk_count = chunk_count, d_file_size = file_size\<rparr>
                             in if \<not> insert_ok ue then (s2, Inl Unhandled)
                                else (s2\<lparr>documents := documents s2 @ [doc_record]\<rparr>,
                                      DocumentResponse_of doc_record))))"

definition delete_document ::
  "'f state \<Rightarrow> string \<Rightarrow> user_doc \<Rightarrow> 'f state \<times> (error + string)" where
  "delete_document s doc_id current_user =
     (case check_permission current_user ''delete_docs'' of
        Some err \<Rightarrow> (s, Inl err)
      | None \<Rightarrow>
          (case find_one (\<lambda>d. d_id d = doc_id) (documents s) of
             None \<Rightarrow> (s, Inl (HTTPException 404 ''Document not found''))
           | Some doc \<Rightarrow>
               let s1 = s\<lparr>uploads := filter (\<lambda>f. fst f \<noteq> d_file_path doc) (uploads s)\<rparr>;
                   s2 = s1\<lparr>documents := delete_one (\<lambda>d. d_id d = doc_id) (documents s1)\<rparr>
               in (s2, Inr ''Document deleted'')))"

section \<open>Runs of the service\<close>

text \<open>
  The service starts with empty collections and no index, in memory or saved. A state is
  reachable by the endpoints that change state, in any order and with any outcome of the
  collaborators, and by a restart of the process, which drops the cached index handle.
  \<open>uuid4\<close> is taken to return, for a new document, an identifier that is not the
  sentinel and is not yet used by a document record or an index entry.
\<close>

definition initial_state :: "'f state" where
  "initial_state =
     \<lparr>users = [], documents = [], chat_sessions = [], chat_messages = [],
      vector_store = None, faiss_index = None, uploads = []\<rparr>"

definition index_entries :: "'f state \<Rightarrow> Document list" where
  "index_entries s =
     (case vector_store s of None \<Rightarrow> [] | Some st \<Rightarrow> st) @
     (case faiss_index s of None \<Rightarrow> [] | Some st \<Rightarrow> st)"

definition fresh_doc_id :: "'f state \<Rightarrow> string \<Rightarrow> bool" where
  "fresh_doc_id s i \<longleftrightarrow>
     i \<noteq> ''system'' \<and> i \<notin> d_id ` set (documents s)
     \<and> i \<notin> (\<lambda>c. md_doc_id (metadata c)) ` set (index_entries s)"

inductive reachable :: "'f::{linorder,one,plus,inverse} state \<Rightarrow> bool" where
  start: "reachable initial_state"
| restart: "reachable s \<Longrightarrow> reachable (s\<lparr>vector_store := None\<rparr>)"
| register: "reachable s \<Longrightarrow> reachable (fst (register re s user))"
| update_user: "reachable s \<Longrightarrow> reachable (fst (update_user s user_id update current_user))"
| delete_user: "reachable s \<Longrightarrow> reachable (fst (delete_user s user_id current_user))"
| upload_document:
    "reachable s \<Longrightarrow> fresh_doc_id s (uuid_doc ue) \<Longrightarrow>
     reachable (fst (upload_document (se :: 'f store_env) ue s filename content title description
                       doc_type current_user))"
| delete_document: "reachable s \<Longrightarrow> reachable (fst (delete_document s doc_id current_user))"
| chat: "reachable s \<Longrightarrow> reachable (fst (chat (se :: 'f store_env) ce s request current_user))"
| delete_session: "reachable s \<Longrightarrow> reachable (fst (delete_session s sid current_user))"

text \<open>The index and the record store agree on the type of every document both hold, and
  no document record carries the sentinel's id.\<close>

definition index_agrees :: "'f state \<Rightarrow> bool" where
  "index_agrees s \<longleftrightarrow>
     (\<forall>r \<in> set (documents s). d_id r \<noteq> ''system'') \<and>
     (\<forall>c \<in> set (index_entries s). \<forall>r \<in> set (documents s).
        d_id r = md_doc_id (metadata c) \<longrightarrow> md_doc_type (metadata c) = Some (d_doc_type r))"

text \<open>What a chat request retrieves: the result of its call of \<open>search\<close>.\<close>

definition chat_retrieved ::
  "('f::linorder, 'x) store_env_scheme \<Rightarrow> 'f state \<Rightarrow> ChatRequest \<Rightarrow> user_doc
     \<Rightarrow> error + (Document \<times> 'f) list" where
  "chat_retrieved se s request current_user =
     snd (search se s (message request) 5 (role_doc_types (u_role current_user)))"

section \<open>Floating-point arithmetic\<close>

text \<open>
  A Python float with \<open>p\<close> bits of precision is a real number, and every arithmetic
  operation returns the exact result rounded to the nearest number with \<open>p\<close>
  significant bits, a tie going to the even one (\<open>p\<close> is 53 for a Python float and 24
  for the single-precision distances the index returns). The exponent is not bounded:
  there is no overflow to infinity and no subnormal range. Division by zero, which Python
  raises on, does not arise in \<open>1 / (1 + score)\<close> for a distance that is not negative.
\<close>

definition round_half_even :: "real \<Rightarrow> int" where
  "round_half_even x =
     (let f = \<lfloor>x\<rfloor> in
      if x - of_int f < 1 / 2 then f
      else if 1 / 2 < x - of_int f then f + 1
      else if even f then f else f + 1)"

definition float_round :: "nat \<Rightarrow> real \<Rightarrow> real" where
  "float_round p x =
     (if x = 0 then 0
      else let e = \<lfloor>log 2 \<bar>x\<bar>\<rfloor> - int p + 1
           in of_int (round_half_even (x / 2 powr of_int e)) * 2 powr of_int e)"

datatype 'p pyfloat = Float (float_val: real)

instantiation pyfloat :: (len) "{one, plus, inverse}"
begin

definition one_pyfloat :: "'p::len pyfloat" where
  "one_pyfloat = Float 1"

definition plus_pyfloat :: "'p::len pyfloat \<Rightarrow> 'p pyfloat \<Rightarrow> 'p pyfloat" where
  "plus_pyfloat a b = Float (float_round LENGTH('p) (float_val a + float_val b))"

definition divide_pyfloat :: "'p::len pyfloat \<Rightarrow> 'p pyfloat \<Rightarrow> 'p pyfloat" where
  "divide_pyfloat a b = Float (float_round LENGTH('p) (float_val a / float_val b))"

definition inverse_pyfloat :: "'p::len pyfloat \<Rightarrow> 'p pyfloat" where
  "inverse_pyfloat a = Float (float_round LENGTH('p) (1 / float_val a))"

instance ..

end

section \<open>Notions used to state the properties\<close>

definition result_doc_id :: "Document \<times> 'f \<Rightarrow> string" where
  "result_doc_id r = md_doc_id (metadata (fst r))"

text \<open>The results that are the first of their document, the sentinel and the documents
  already seen left out.\<close>

fun first_occurrences :: "(Document \<times> 'f) list \<Rightarrow> string set \<Rightarrow> (Document \<times> 'f) list" where
  "first_occurrences [] seen = []"
| "first_occurrences (r # rs) seen =
     (if result_doc_id r = ''system'' \<or> result_doc_id r \<in> seen then first_occurrences rs seen
      else r # first_occurrences rs (insert (result_doc_id r) seen))"

definition cite :: "document_record list \<Rightarrow> Document \<times> 'f::{one,plus,inverse} \<Rightarrow> 'f source list" where
  "cite docs r =
     (case find_one (\<lambda>d. d_id d = result_doc_id r) docs of
        Some doc_info \<Rightarrow> [make_source (result_doc_id r) doc_info (snd r)]
      | None \<Rightarrow> [])"

text \<open>The session id a chat request works on, the session document it creates when it
  starts a session, and the update it applies to the session at the end.\<close>

definition chat_sid :: "chat_env \<Rightarrow> ChatRequest \<Rightarrow> string" where
  "chat_sid ce request =
     (case session_id request of
        None \<Rightarrow> uuid_session ce
      | Some sid \<Rightarrow> if sid = [] then uuid_session ce else sid)"

definition starts_session :: "ChatRequest \<Rightarrow> bool" where
  "starts_session request \<longleftrightarrow> session_id request = None \<or> session_id request = Some []"

definition new_session :: "chat_env \<Rightarrow> ChatRequest \<Rightarrow> user_doc \<Rightarrow> chat_session" where
  "new_session ce request u =
     \<lparr>cs_id = uuid_session ce, cs_user_id = u_id u, cs_title = session_title (message request),
      cs_created_at = now_session_created ce, cs_updated_at = now_session_updated ce,
      message_count = 0\<rparr>"

definition touch :: "chat_env \<Rightarrow> chat_session \<Rightarrow> chat_session" where
  "touch ce = (\<lambda>c. c\<lparr>cs_updated_at := now_update ce, message_count := message_count c + 2\<rparr>)"

definition user_turn :: "chat_env \<Rightarrow> ChatRequest \<Rightarrow> 'f message_doc" where
  "user_turn ce request =
     \<lparr>m_id = uuid_user_msg ce, m_session_id = chat_sid ce request, m_role = User,
      m_content = message request, m_sources = None, m_timestamp = now_user_msg ce\<rparr>"

definition assistant_turn :: "chat_env \<Rightarrow> ChatRequest \<Rightarrow> string \<Rightarrow> 'f source list \<Rightarrow> 'f message_doc" where
  "assistant_turn ce request reply sources =
     \<lparr>m_id = uuid_assistant_msg ce, m_session_id = chat_sid ce request, m_role = Assistant,
      m_content = reply, m_sources = Some sources, m_timestamp = now_assistant_msg ce\<rparr>"

definition context_of :: "string list \<Rightarrow> string" where
  "context_of context_parts =
     (if context_parts \<noteq> [] then join ''\<newline>\<newline>---\<newline>\<newline>'' context_parts
      else ''No relevant documents found.'')"

definition session_of :: "'f state \<Rightarrow> string \<Rightarrow> chat_session option" where
  "session_of s sid = find_one (\<lambda>c. cs_id c = sid) (chat_sessions s)"

text \<open>The title and the extension an upload works with.\<close>

definition upload_title :: "upload_env \<Rightarrow> string \<Rightarrow> string \<Rightarrow> string" where
  "upload_title ue title filename = (if title \<noteq> [] then title else path_stem ue filename)"

definition upload_ext :: "upload_env \<Rightarrow> string \<Rightarrow> string" where
  "upload_ext ue filename = str_lower ue (path_suffix ue filename)"

section \<open>Example inputs\<close>

definition ex_record :: "string \<Rightarrow> string \<Rightarrow> string \<Rightarrow> nat \<Rightarrow> document_record" where
  "ex_record i t ty n =
     \<lparr>d_id = i, d_title = t, d_description = '''', d_doc_type = ty,
      d_filename = t @ ''.txt'', d_file_path = ''uploads/'' @ i @ ''.txt'', d_uploaded_by = ''u1'',
      d_uploaded_by_name = ''Ada'', d_created_at = ''2024-01-01T00:00:00+00:00'',
      d_chunk_count = n, d_file_size = 40\<rparr>"

definition ex_chunk :: "string \<Rightarrow> string \<Rightarrow> string \<Rightarrow> nat \<Rightarrow> string \<Rightarrow> Document" where
  "ex_chunk i t ty n txt =
     \<lparr>page_content = txt,
      metadata = \<lparr>md_doc_id = i, md_title = t, md_doc_type = Some ty, md_chunk_index = n\<rparr>\<rparr>"

definition ex_docs :: "document_record list" where
  "ex_docs = [ex_record ''d1'' ''Lockout'' ''sop'' 2]"

definition ex_results :: "(Document \<times> rat) list" where
  "ex_results = [(ex_chunk ''d1'' ''Lockout'' ''sop'' 0 ''wear gloves'', 1),
                 (placeholder, 2),
                 (ex_chunk ''d2'' ''Gone'' ''sop'' 0 ''old text'', 3),
                 (ex_chunk ''d1'' ''Lockout'' ''sop'' 1 ''then lock'', 4)]"

definition ex_env :: "rat store_env" where
  "ex_env = \<lparr>split_text = (\<lambda>t. [t]),
             dist = (\<lambda>q d. of_nat (md_chunk_index (metadata d))),
             load_local_ok = True, from_texts_ok = True, save_local_ok = True,
             fallback_ok = True, add_texts_ok = True, add_save_ok = True, search_ok = True\<rparr>"

definition ex_index :: "Document list" where
  "ex_index = [placeholder,
               ex_chunk ''d3'' ''Audit'' ''compliance'' 1 ''audit rules'',
               ex_chunk ''d3'' ''Audit'' ''compliance'' 2 ''more rules'',
               ex_chunk ''d4'' ''Pump'' ''manual'' 3 ''pump manual'',
               ex_chunk ''d1'' ''Lockout'' ''sop'' 4 ''wear gloves'',
               ex_chunk ''d1'' ''Lockout'' ''sop'' 5 ''then lock'']"

definition ex_state :: "rat state" where
  "ex_state = \<lparr>users = [], documents = [ex_record ''d1'' ''Lockout'' ''sop'' 2,
                 ex_record ''d3'' ''Audit'' ''compliance'' 2, ex_record ''d4'' ''Pump'' ''manual'' 1],
               chat_sessions = [], chat_messages = [],
               vector_store = Some ex_index, faiss_index = Some ex_index, uploads = []\<rparr>"

definition ex_upload_env :: "string \<Rightarrow> upload_env" where
  "ex_upload_env i =
     \<lparr>path_suffix = (\<lambda>f. ''.txt''), path_stem = (\<lambda>f. ''notes''), str_lower = (\<lambda>x. x),
      extract_text_from_pdf = (\<lambda>c. None), extract_text_from_docx = (\<lambda>c. None),
      extract_text_from_txt = (\<lambda>c. c), uuid_doc = i, uploads_path = ''uploads'',
      now_created = ''2024-01-01T00:00:00+00:00'', file_write_ok = True, insert_ok = True\<rparr>"

definition ex_user :: "string \<Rightarrow> RoleType \<Rightarrow> user_doc" where
  "ex_user i r =
     \<lparr>u_id = i, u_email = i @ ''@x.com'', u_name = i, u_role = r, u_password_hash = ''h'',
      u_created_at = ''2024-01-01T00:00:00+00:00'', u_is_active = True\<rparr>"

definition ex_s1 :: "rat state" where
  "ex_s1 = fst (upload_document ex_env (ex_upload_env ''d1'') initial_state ''audit.txt''
                  ''audit rules'' ''Audit'' '''' ''compliance'' (ex_user ''eng'' Engineer))"

definition ex_s2 :: "rat state" where
  "ex_s2 = fst (upload_document ex_env (ex_upload_env ''d2'') ex_s1 ''lockout.txt''
                  ''wear gloves'' ''Lockout'' '''' ''sop'' (ex_user ''eng'' Engineer))"

definition ex_chat_env :: chat_env where
  "ex_chat_env =
     \<lparr>uuid_session = ''s1'', uuid_user_msg = ''m1'', uuid_assistant_msg = ''m2'',
      uuid_llm_hex = ''0badcafe'',
      now_session_created = ''2024-01-02T00:00:00+00:00'',
      now_session_updated = ''2024-01-02T00:00:00.000001+00:00'',
      now_user_msg = ''2024-01-02T00:00:00.000002+00:00'',
      now_assistant_msg = ''2024-01-02T00:00:01+00:00'',
      now_update = ''2024-01-02T00:00:01.000001+00:00'',
      send_message = (\<lambda>sid sys msg. Some ''Wear gloves.'')\<rparr>"

definition ex_request :: ChatRequest where
  "ex_request = \<lparr>message = ''gloves'', session_id = None\<rparr>"

definition ex_chat_env_down :: chat_env where
  "ex_chat_env_down = ex_chat_env\<lparr>send_message := (\<lambda>sid sys msg. None)\<rparr>"

definition ex_request_empty_sid :: ChatRequest where
  "ex_request_empty_sid = \<lparr>message = ''gloves'', session_id = Some ''''\<rparr>"

definition ex_request_other :: ChatRequest where
  "ex_request_other = \<lparr>message = ''gloves'', session_id = Some ''not-a-session''\<rparr>"

definition ex_chat_env2 :: chat_env where
  "ex_chat_env2 =
     \<lparr>uuid_session = ''s2'', uuid_user_msg = ''m3'', uuid_assistant_msg = ''m4'',
      uuid_llm_hex = ''0badcafe'',
      now_session_created = ''2024-01-02T00:05:00+00:00'',
      now_session_updated = ''2024-01-02T00:05:00.000001+00:00'',
      now_user_msg = ''2024-01-02T00:05:00.000002+00:00'',
      now_assistant_msg = ''2024-01-02T00:05:01+00:00'',
      now_update = ''2024-01-02T00:05:01.000001+00:00'',
      send_message = (\<lambda>sid sys msg. Some ''Nitrile gloves.'')\<rparr>"

definition ex_request2 :: ChatRequest where
  "ex_request2 = \<lparr>message = ''which gloves'', session_id = Some ''s1''\<rparr>"

definition ex_s3 :: "rat state" where
  "ex_s3 = \<lparr>users = [ex_user ''adm'' Admin, ex_user ''tech'' Technician], documents = [],
            chat_sessions = [\<lparr>cs_id = ''s1'', cs_user_id = ''adm'', cs_title = ''gloves'',
                              cs_created_at = ''2024-01-02T00:00:00+00:00'',
                              cs_updated_at = ''2024-01-02T00:00:01.000001+00:00'',
                              message_count = 2\<rparr>],
            chat_messages = [\<lparr>m_id = ''m1'', m_session_id = ''s1'', m_role = User,
                              m_content = ''gloves'', m_sources = None,
                              m_timestamp = ''2024-01-02T00:00:00.000002+00:00''\<rparr>,
                             \<lparr>m_id = ''m2'', m_session_id = ''s1'', m_role = Assistant,
                              m_content = ''Wear gloves.'', m_sources = Some [],
                              m_timestamp = ''2024-01-02T00:00:01+00:00''\<rparr>],
            vector_store = None, faiss_index = None, uploads = []\<rparr>"

definition ex_register_env :: register_env where
  "ex_register_env =
     \<lparr>uuid_user = ''u9'', hash_password = (\<lambda>p. ''bcrypt:'' @ p),
      now_registered = ''2024-01-03T00:00:00+00:00'',
      create_token = (\<lambda>i e r. ''jwt:'' @ i)\<rparr>"

definition ex_signup :: UserCreate where
  "ex_signup = \<lparr>uc_email = ''mallory@x.com'', uc_name = ''Mallory'', uc_role = Some Admin,
                uc_password = ''pw1''\<rparr>"

definition ex_env_save_fails :: "rat store_env" where
  "ex_env_save_fails = ex_env\<lparr>add_save_ok := False\<rparr>"

section \<open>The retrieval loop of the chat endpoint\<close>

lemma chat_loop_closed:
  "chat_loop docs rs (cp, srcs, seen) =
     (cp @ map (context_part \<circ> fst) (filter (\<lambda>r. result_doc_id r \<noteq> ''system'') rs),
      srcs @ concat (map (cite docs) (first_occurrences rs seen)),
      seen \<union> (result_doc_id ` set rs - {''system''}))"
proof (induction rs arbitrary: cp srcs seen)
  case Nil
  then show ?case by simp
next
  case (Cons r rs)
  obtain doc score where r: "r = (doc, score)" by (cases r)
  show ?case
    unfolding r
    by (auto simp: Cons.IH result_doc_id_def cite_def Let_def split: option.splits)
qed

lemma first_occurrences_ids:
  "result_doc_id ` set (first_occurrences rs seen) = result_doc_id ` set rs - seen - {''system''}"
  by (induction rs arbitrary: seen) auto

lemma first_occurrences_distinct:
  "distinct (map result_doc_id (first_occurrences rs seen))"
proof (induction rs arbitrary: seen)
  case Nil
  then show ?case by simp
next
  case (Cons r rs)
  have "result_doc_id r \<notin> result_doc_id ` set (first_occurrences rs (insert (result_doc_id r) seen))"
    unfolding first_occurrences_ids by simp
  with Cons show ?case by simp
qed

lemma first_occurrences_first:
  "r \<in> set (first_occurrences rs seen) \<Longrightarrow> find (\<lambda>x. result_doc_id x = result_doc_id r) rs = Some r"
proof (induction rs arbitrary: seen)
  case Nil
  then show ?case by simp
next
  case (Cons a rs)
  show ?case
  proof (cases "result_doc_id a = result_doc_id r")
    case True
    have "r \<notin> set (first_occurrences rs (insert (result_doc_id a) seen))"
      using first_occurrences_ids[of rs "insert (result_doc_id a) seen"] True by blast
    moreover have "result_doc_id a \<in> seen \<or> result_doc_id a = ''system'' \<Longrightarrow> r \<notin> set (first_occurrences rs seen)"
      using first_occurrences_ids[of rs seen] True by blast
    ultimately show ?thesis using Cons.prems True by (auto split: if_splits)
  next
    case False
    then show ?thesis using Cons by (auto split: if_splits)
  qed
qed

lemma cite_ids: "c \<in> set (cite docs r) \<Longrightarrow> s_doc_id c = result_doc_id r"
  by (auto simp: cite_def make_source_def split: option.splits)

lemma cite_origin:
  "c \<in> set (cite docs r) \<Longrightarrow>
   \<exists>doc_info. find_one (\<lambda>x. d_id x = result_doc_id r) docs = Some doc_info
      \<and> c = make_source (result_doc_id r) doc_info (snd r)"
  by (cases "find_one (\<lambda>x. d_id x = result_doc_id r) docs") (simp_all add: cite_def)

lemma count_cite:
  "distinct (map result_doc_id xs) \<Longrightarrow>
   length (filter (\<lambda>c. s_doc_id c = d) (concat (map (cite docs) xs))) =
     (if d \<in> result_doc_id ` set xs \<and> find_one (\<lambda>x. d_id x = d) docs \<noteq> None then 1 else 0)"
proof (induction xs)
  case Nil
  then show ?case by simp
next
  case (Cons r xs)
  have here: "length (filter (\<lambda>c. s_doc_id c = d) (cite docs r)) =
     (if d = result_doc_id r \<and> find_one (\<lambda>x. d_id x = d) docs \<noteq> None then 1 else 0)"
    by (auto simp: cite_def make_source_def split: option.splits)
  from Cons.prems have "result_doc_id r \<notin> result_doc_id ` set xs" and "distinct (map result_doc_id xs)"
    by auto
  with Cons.IH here show ?case by auto
qed

lemma chat_loop_sources_origin:
  assumes "c \<in> set (fst (snd (chat_loop docs rs ([], [], {}))))"
  shows "\<exists>doc score doc_info.
           find (\<lambda>r. result_doc_id r = s_doc_id c) rs = Some (doc, score)
         \<and> find_one (\<lambda>x. d_id x = s_doc_id c) docs = Some doc_info
         \<and> c = make_source (s_doc_id c) doc_info score"
proof -
  from assms obtain r where r: "r \<in> set (first_occurrences rs {})" and c: "c \<in> set (cite docs r)"
    unfolding chat_loop_closed by auto
  from c have id: "s_doc_id c = result_doc_id r" by (rule cite_ids)
  from first_occurrences_first[OF r] id
  have "find (\<lambda>x. result_doc_id x = s_doc_id c) rs = Some (fst r, snd r)" by simp
  moreover from cite_origin[OF c] id obtain doc_info where
    "find_one (\<lambda>x. d_id x = s_doc_id c) docs = Some doc_info"
    "c = make_source (s_doc_id c) doc_info (snd r)"
    by auto
  ultimately show ?thesis by blast
qed

text \<open>
  Claim C3. The retrieval loop, run over any result list in relevance order from empty
  accumulators: the context holds one part for every result that is not the system
  sentinel, in order, and none for the sentinel; for every document id the number of
  citations is one when the id is not the sentinel, occurs among the results and its
  document record exists in the record store, and zero otherwise (so several matching
  chunks of one document give one citation, and a document whose record is gone gives
  none); and every citation is built at the first result of its document, from that
  result's score and the current record.
\<close>

theorem chat_loop_citations:
  "case chat_loop docs rs ([], [], {}) of
     (context_parts, sources, seen_docs) \<Rightarrow>
       context_parts =
         map (context_part \<circ> fst) (filter (\<lambda>r. result_doc_id r \<noteq> ''system'') rs)
     \<and> (\<forall>d. length (filter (\<lambda>c. s_doc_id c = d) sources) =
           (if d \<noteq> ''system'' \<and> d \<in> result_doc_id ` set rs
               \<and> find_one (\<lambda>x. d_id x = d) docs \<noteq> None
            then 1 else 0))
     \<and> (\<forall>c \<in> set sources. \<exists>doc score doc_info.
           find (\<lambda>r. result_doc_id r = s_doc_id c) rs = Some (doc, score)
         \<and> find_one (\<lambda>x. d_id x = s_doc_id c) docs = Some doc_info
         \<and> c = make_source (s_doc_id c) doc_info score)"
proof -
  let ?fo = "first_occurrences rs {}"
  have count: "length (filter (\<lambda>c. s_doc_id c = d) (concat (map (cite docs) ?fo))) =
           (if d \<noteq> ''system'' \<and> d \<in> result_doc_id ` set rs
               \<and> find_one (\<lambda>x. d_id x = d) docs \<noteq> None
            then 1 else 0)" for d
    using count_cite[OF first_occurrences_distinct, where d=d and rs1=rs and seen1="{}" and docs=docs]
          first_occurrences_ids[of rs "{}"]
    by auto
  have origin: "\<exists>doc score doc_info.
           find (\<lambda>r. result_doc_id r = s_doc_id c) rs = Some (doc, score)
         \<and> find_one (\<lambda>x. d_id x = s_doc_id c) docs = Some doc_info
         \<and> c = make_source (s_doc_id c) doc_info score"
    if "c \<in> set (concat (map (cite docs) ?fo))" for c
    using that chat_loop_sources_origin[of c docs rs] unfolding chat_loop_closed by simp
  show ?thesis
    unfolding chat_loop_closed using count origin by simp
qed

theorem chat_loop_citations_witness:
  "map s_doc_id (fst (snd (chat_loop ex_docs ex_results ([], [], {})))) = [''d1'']
   \<and> length (filter (\<lambda>c. s_doc_id c = ''d1'') (fst (snd (chat_loop ex_docs ex_results ([], [], {}))))) = 1
   \<and> length (filter (\<lambda>c. s_doc_id c = ''d2'') (fst (snd (chat_loop ex_docs ex_results ([], [], {}))))) = 0"
  using chat_loop_citations[where docs=ex_docs and rs=ex_results]
  by (simp add: ex_docs_def ex_record_def ex_results_def ex_chunk_def placeholder_def find_one_def
        make_source_def Let_def)

section \<open>Search\<close>

lemma sim_length:
  "length (similarity_search_with_score e st query n) = min n (length st)"
  by (simp add: similarity_search_with_score_def min.commute)

lemma sim_sorted: "sorted (map snd (similarity_search_with_score e st query n))"
proof -
  have "sorted (map snd (sort_key snd (map (\<lambda>d. (d, dist e query d)) st)))"
    by (rule sorted_sort_key)
  then show ?thesis
    unfolding similarity_search_with_score_def take_map[symmetric] by (rule sorted_wrt_take)
qed

lemma sim_set:
  "set (similarity_search_with_score e st query n) \<subseteq> (\<lambda>d. (d, dist e query d)) ` set st"
proof -
  have "set (take n (sort_key snd (map (\<lambda>d. (d, dist e query d)) st)))
          \<subseteq> set (sort_key snd (map (\<lambda>d. (d, dist e query d)) st))"
    by (rule set_take_subset)
  then show ?thesis by (simp add: similarity_search_with_score_def)
qed

lemma sim_nearest:
  assumes "d \<in> set st" and "(d, dist e query d) \<notin> set (similarity_search_with_score e st query n)"
    and "c \<in> set (similarity_search_with_score e st query n)"
  shows "snd c \<le> dist e query d"
proof -
  let ?all = "sort_key snd (map (\<lambda>d. (d, dist e query d)) st)"
  have srt: "sorted (map snd (take n ?all) @ map snd (drop n ?all))"
    unfolding map_append[symmetric] append_take_drop_id by (rule sorted_sort_key)
  have "(d, dist e query d) \<in> set ?all" using assms(1) by simp
  then have "(d, dist e query d) \<in> set (take n ?all) \<union> set (drop n ?all)"
    unfolding set_append[symmetric] append_take_drop_id .
  with assms(2) have "(d, dist e query d) \<in> set (drop n ?all)"
    by (simp add: similarity_search_with_score_def)
  then have "dist e query d \<in> set (map snd (drop n ?all))" by force
  moreover from assms(3) have "snd c \<in> set (map snd (take n ?all))"
    by (simp add: similarity_search_with_score_def)
  ultimately show ?thesis using srt unfolding sorted_append by blast
qed

text \<open>
  Claim C7. A search with \<open>k\<close> and a non-empty list of allowed document types, once
  the index is loaded and the query embedded: the candidates are the \<open>2k\<close> nearest
  entries of the whole index (all of it when it holds fewer), ordered by distance, and
  every entry left out is at least as far as every candidate; the result is the
  candidates whose \<open>doc_type\<close> is in the list, in the same order, cut to \<open>k\<close>; so it
  has at most \<open>k\<close> entries, all of an allowed type, and fewer than \<open>k\<close> when fewer than
  \<open>k\<close> of the candidates match.
\<close>

theorem search_overfetch_filter_truncate:
  assumes "load_or_create_store e s = (s1, Inr st)" and "search_ok e" and "doc_types \<noteq> []"
  shows "search e s query k (Some doc_types) =
           (s1, Inr (take k (filter (in_doc_types doc_types)
                               (similarity_search_with_score e st query (k * 2)))))
       \<and> length (similarity_search_with_score e st query (k * 2)) = min (k * 2) (length st)
       \<and> sorted (map snd (similarity_search_with_score e st query (k * 2)))
       \<and> (\<forall>c \<in> set (similarity_search_with_score e st query (k * 2)).
             fst c \<in> set st \<and> snd c = dist e query (fst c))
       \<and> (\<forall>d \<in> set st. (d, dist e query d) \<notin> set (similarity_search_with_score e st query (k * 2))
             \<longrightarrow> (\<forall>c \<in> set (similarity_search_with_score e st query (k * 2)).
                    snd c \<le> dist e query d))
       \<and> (\<forall>res. snd (search e s query k (Some doc_types)) = Inr res \<longrightarrow>
             length res \<le> k
           \<and> (\<forall>r \<in> set res. \<exists>t. md_doc_type (metadata (fst r)) = Some t \<and> t \<in> set doc_types)
           \<and> (length (filter (in_doc_types doc_types)
                        (similarity_search_with_score e st query (k * 2))) < k
                \<longrightarrow> length res < k))"
proof -
  let ?cands = "similarity_search_with_score e st query (k * 2)"
  let ?res = "take k (filter (in_doc_types doc_types) ?cands)"
  obtain t ts where dt: "doc_types = t # ts" using assms(3) by (cases doc_types) auto
  have eq: "search e s query k (Some doc_types) = (s1, Inr ?res)"
    using assms(1,2) by (simp add: search_def dt)
  have allowed: "\<exists>t. md_doc_type (metadata (fst r)) = Some t \<and> t \<in> set doc_types"
    if "r \<in> set ?res" for r
  proof -
    from that have "r \<in> set (filter (in_doc_types doc_types) ?cands)" by (rule in_set_takeD)
    then have "in_doc_types doc_types r" by simp
    then show ?thesis by (auto simp: in_doc_types_def split: option.splits)
  qed
  have from_index: "fst c \<in> set st \<and> snd c = dist e query (fst c)" if "c \<in> set ?cands" for c
    using that sim_set[of e st query "k * 2"] by auto
  have len: "length ?res \<le> k" by simp
  have few: "length (filter (in_doc_types doc_types) ?cands) < k \<Longrightarrow> length ?res < k"
    by simp
  have near: "\<forall>d \<in> set st. (d, dist e query d) \<notin> set ?cands
             \<longrightarrow> (\<forall>c \<in> set ?cands. snd c \<le> dist e query d)"
    using sim_nearest by blast
  have tail: "\<forall>res. snd (search e s query k (Some doc_types)) = Inr res \<longrightarrow>
             length res \<le> k
           \<and> (\<forall>r \<in> set res. \<exists>t. md_doc_type (metadata (fst r)) = Some t \<and> t \<in> set doc_types)
           \<and> (length (filter (in_doc_types doc_types) ?cands) < k \<longrightarrow> length res < k)"
    unfolding eq using len few allowed by (simp del: length_take)
  from eq sim_length[of e st query "k * 2"] sim_sorted[of e st query "k * 2"] from_index near tail
  show ?thesis by blast
qed


theorem search_overfetch_filter_truncate_witness:
  "search ex_env ex_state ''gloves'' 2 (Some [''sop'']) = (ex_state, Inr [])
   \<and> length (similarity_search_with_score ex_env ex_index ''gloves'' (2 * 2)) = 4
   \<and> length (filter (in_doc_types [''sop'']) (map (\<lambda>d. (d, dist ex_env ''gloves'' d)) ex_index)) = 2"
  using search_overfetch_filter_truncate[where e=ex_env and s=ex_state and ?s1.0=ex_state
          and st=ex_index and doc_types="[''sop'']" and k=2 and query="''gloves''"]
  by (simp add: load_or_create_store_def ex_state_def ex_env_def ex_index_def ex_chunk_def
        placeholder_def similarity_search_with_score_def in_doc_types_def)


section \<open>The index and the record store agree in every reachable state\<close>

lemma load_or_create_store_documents:
  "documents (fst (load_or_create_store e s)) = documents s"
  by (auto simp: load_or_create_store_def store_fallback_def split: option.splits)

lemma load_or_create_store_entries:
  "set (index_entries (fst (load_or_create_store e s))) \<subseteq> insert placeholder (set (index_entries s))"
  by (auto simp: load_or_create_store_def store_fallback_def index_entries_def split: option.splits)

lemma load_or_create_store_result:
  "load_or_create_store e s = (s1, Inr st) \<Longrightarrow> vector_store s1 = Some st"
  by (auto simp: load_or_create_store_def store_fallback_def split: option.splits if_splits)

lemma index_agrees_mono:
  assumes "index_agrees s" and "set (documents s') \<subseteq> set (documents s)"
    and "set (index_entries s') \<subseteq> insert placeholder (set (index_entries s))"
  shows "index_agrees s'"
proof -
  have "md_doc_type (metadata c) = Some (d_doc_type r)"
    if "c \<in> set (index_entries s')" "r \<in> set (documents s')" "d_id r = md_doc_id (metadata c)" for c r
  proof (cases "c = placeholder")
    case True
    with that assms(1,2) show ?thesis by (auto simp: index_agrees_def placeholder_def)
  next
    case False
    with that(1) assms(3) have "c \<in> set (index_entries s)" by auto
    with that(2,3) assms(1,2) show ?thesis by (auto simp: index_agrees_def)
  qed
  with assms(1,2) show ?thesis unfolding index_agrees_def by blast
qed

lemma search_documents: "documents (fst (search e s q k dts)) = documents s"
  using load_or_create_store_documents[of e s]
  by (auto simp: search_def split: prod.splits sum.splits option.splits list.splits)

lemma search_entries:
  "set (index_entries (fst (search e s q k dts))) \<subseteq> insert placeholder (set (index_entries s))"
  using load_or_create_store_entries[of e s]
  by (auto simp: search_def split: prod.splits sum.splits option.splits list.splits)

lemma search_fst: "fst (search e s q k dts) = fst (load_or_create_store e s)"
  by (auto simp: search_def split: prod.splits sum.splits option.splits list.splits)

lemma chat_documents: "documents (fst (chat se ce s request u)) = documents s"
  using search_documents[of se s "message request" 5 "role_doc_types (u_role u)"]
  by (auto simp: chat_def resolve_session_def Let_def split: prod.splits sum.splits option.splits)

lemma chat_entries:
  "index_entries (fst (chat se ce s request u)) =
   index_entries (fst (load_or_create_store se s))"
  using search_fst[of se s "message request" 5 "role_doc_types (u_role u)"]
  by (auto simp: chat_def resolve_session_def Let_def index_entries_def
           split: prod.splits sum.splits option.splits)

lemma chunk_documents_meta:
  "c \<in> set (chunk_documents i t ty chunks) \<Longrightarrow>
   md_doc_id (metadata c) = i \<and> md_doc_type (metadata c) = Some ty"
  by (auto simp: chunk_documents_def)

lemma add_document_documents:
  "documents (fst (add_document e s i t c ty)) = documents s"
  using load_or_create_store_documents[of e s]
  by (auto simp: add_document_def Let_def split: prod.splits sum.splits)

lemma add_document_uploads_etc:
  "add_document e s i t c ty = (s1, r) \<Longrightarrow> documents s1 = documents s"
  using add_document_documents[of e s i t c ty] by simp

lemma add_document_entries:
  "set (index_entries (fst (add_document e s i t c ty)))
     \<subseteq> insert placeholder (set (index_entries s)) \<union> set (chunk_documents i t ty (split_text e c))"
proof -
  obtain s1 r where l: "load_or_create_store e s = (s1, r)" by (cases "load_or_create_store e s")
  have sub: "set (index_entries s1) \<subseteq> insert placeholder (set (index_entries s))"
    using load_or_create_store_entries[of e s] l by simp
  show ?thesis
  proof (cases r)
    case (Inl err)
    with l sub show ?thesis by (auto simp: add_document_def)
  next
    case (Inr st)
    with l have vs: "vector_store s1 = Some st" by (simp add: load_or_create_store_result)
    then have "set st \<subseteq> set (index_entries s1)" by (simp add: index_entries_def)
    with l Inr sub vs show ?thesis
      by (auto simp: add_document_def Let_def index_entries_def split: option.splits)
  qed
qed

lemma index_agrees_extend:
  assumes "index_agrees s" and "fresh_doc_id s i"
    and docs: "set (documents s') \<subseteq> set (documents s) \<union> {r. d_id r = i \<and> d_doc_type r = ty}"
    and ents: "set (index_entries s')
                 \<subseteq> insert placeholder (set (index_entries s)) \<union> set (chunk_documents i t ty chunks)"
  shows "index_agrees s'"
proof -
  have nosys: "d_id r \<noteq> ''system''" if "r \<in> set (documents s')" for r
    using that docs assms(1,2) by (auto simp: index_agrees_def fresh_doc_id_def)
  have "md_doc_type (metadata c) = Some (d_doc_type r)"
    if c: "c \<in> set (index_entries s')" and r: "r \<in> set (documents s')"
      and eq: "d_id r = md_doc_id (metadata c)" for c r
  proof -
    consider (ph) "c = placeholder" | (old) "c \<in> set (index_entries s)"
      | (new) "c \<in> set (chunk_documents i t ty chunks)"
      using c ents by auto
    then show ?thesis
    proof cases
      case ph
      with eq nosys[OF r] show ?thesis by (simp add: placeholder_def)
    next
      case old
      then have "md_doc_id (metadata c) \<noteq> i" using assms(2) by (auto simp: fresh_doc_id_def)
      with eq r docs have "r \<in> set (documents s)" by auto
      with old eq assms(1) show ?thesis by (auto simp: index_agrees_def)
    next
      case new
      then have m: "md_doc_id (metadata c) = i" "md_doc_type (metadata c) = Some ty"
        using chunk_documents_meta by blast+
      with eq assms(2) have "r \<notin> set (documents s)" by (auto simp: fresh_doc_id_def)
      with r docs have "d_doc_type r = ty" by auto
      with m show ?thesis by simp
    qed
  qed
  with nosys show ?thesis unfolding index_agrees_def by blast
qed

lemma upload_document_state:
  obtains (unchanged) "fst (upload_document se ue s filename content title description doc_type u) = s"
  | (indexed) t c where
      "fst (upload_document se ue s filename content title description doc_type u)
         = fst (add_document se s (uuid_doc ue) t c doc_type)"
  | (filed) t c p where
      "fst (upload_document se ue s filename content title description doc_type u)
         = (fst (add_document se s (uuid_doc ue) t c doc_type))\<lparr>uploads := p\<rparr>"
  | (recorded) t c p r where "d_id r = uuid_doc ue" and "d_doc_type r = doc_type" and
      "fst (upload_document se ue s filename content title description doc_type u)
         = (fst (add_document se s (uuid_doc ue) t c doc_type))
             \<lparr>uploads := p,
              documents := documents (fst (add_document se s (uuid_doc ue) t c doc_type)) @ [r]\<rparr>"
proof (cases "check_permission u ''upload_docs''")
  case (Some err)
  then have "fst (upload_document se ue s filename content title description doc_type u) = s"
    by (simp add: upload_document_def)
  then show ?thesis by (rule unchanged)
next
  case perm: None
  let ?ext = "str_lower ue (path_suffix ue filename)"
  show ?thesis
  proof (cases "?ext \<in> set allowed_extensions")
    case False
    with perm have "fst (upload_document se ue s filename content title description doc_type u) = s"
      by (simp add: upload_document_def)
    then show ?thesis by (rule unchanged)
  next
    case ext: True
    show ?thesis
    proof (cases "extract_text ue ?ext content")
      case None
      with perm ext have "fst (upload_document se ue s filename content title description doc_type u) = s"
        by (simp add: upload_document_def)
      then show ?thesis by (rule unchanged)
    next
      case extracted: (Some text_content)
      show ?thesis
      proof (cases "strip text_content = []")
        case True
        with perm ext extracted
        have "fst (upload_document se ue s filename content title description doc_type u) = s"
          by (simp add: upload_document_def)
        then show ?thesis by (rule unchanged)
      next
        case nonempty: False
        let ?t = "if title \<noteq> [] then title else path_stem ue filename"
        obtain s1 r where add: "add_document se s (uuid_doc ue) ?t text_content doc_type = (s1, r)"
          by (cases "add_document se s (uuid_doc ue) ?t text_content doc_type")
        then have s1: "s1 = fst (add_document se s (uuid_doc ue) ?t text_content doc_type)" by simp
        show ?thesis
        proof (cases r)
          case (Inl err)
          with perm ext extracted nonempty add
          have "fst (upload_document se ue s filename content title description doc_type u) = s1"
            by (simp add: upload_document_def Let_def)
          with s1 show ?thesis using indexed by blast
        next
          case (Inr chunk_count)
          show ?thesis
          proof (cases "file_write_ok ue")
            case False
            with perm ext extracted nonempty add Inr
            have "fst (upload_document se ue s filename content title description doc_type u) = s1"
              by (simp add: upload_document_def Let_def)
            with s1 show ?thesis using indexed by blast
          next
            case fw: True
            show ?thesis
            proof (cases "insert_ok ue")
              case False
              with perm ext extracted nonempty add Inr fw
              have "fst (upload_document se ue s filename content title description doc_type u)
                      = s1\<lparr>uploads := uploads s1 @ [(uploads_path ue @ ''/'' @ uuid_doc ue @ ?ext, content)]\<rparr>"
                by (simp add: upload_document_def Let_def)
              with s1 show ?thesis using filed by blast
            next
              case True
              let ?r = "\<lparr>d_id = uuid_doc ue, d_title = ?t,
                          d_description = description, d_doc_type = doc_type,
                          d_filename = filename,
                          d_file_path = uploads_path ue @ ''/'' @ uuid_doc ue @ ?ext,
                          d_uploaded_by = u_id u, d_uploaded_by_name = u_name u,
                          d_created_at = now_created ue,
                          d_chunk_count = chunk_count, d_file_size = length content\<rparr>"
              from perm ext extracted nonempty add Inr fw True
              have "fst (upload_document se ue s filename content title description doc_type u)
                      = s1\<lparr>uploads := uploads s1 @ [(uploads_path ue @ ''/'' @ uuid_doc ue @ ?ext, content)],
                           documents := documents s1 @ [?r]\<rparr>"
                by (simp add: upload_document_def Let_def)
              moreover have "d_id ?r = uuid_doc ue" "d_doc_type ?r = doc_type" by simp_all
              ultimately show ?thesis using recorded s1 by blast
            qed
          qed
        qed
      qed
    qed
  qed
qed

lemma upload_document_documents:
  "set (documents (fst (upload_document se ue s filename content title description doc_type u)))
     \<subseteq> set (documents s) \<union> {r. d_id r = uuid_doc ue \<and> d_doc_type r = doc_type}"
  by (cases rule: upload_document_state[of se ue s filename content title description doc_type u])
     (auto simp: add_document_documents)

lemma upload_document_entries:
  "\<exists>t chunks.
     set (index_entries (fst (upload_document se ue s filename content title description doc_type u)))
       \<subseteq> insert placeholder (set (index_entries s))
           \<union> set (chunk_documents (uuid_doc ue) t doc_type chunks)"
proof (cases rule: upload_document_state[of se ue s filename content title description doc_type u])
  case unchanged
  then show ?thesis by auto
next
  case (indexed t c)
  with add_document_entries[of se s "uuid_doc ue" t c doc_type] show ?thesis by metis
next
  case (filed t c p)
  then have "index_entries (fst (upload_document se ue s filename content title description doc_type u))
     = index_entries (fst (add_document se s (uuid_doc ue) t c doc_type))"
    by (simp add: index_entries_def)
  with add_document_entries[of se s "uuid_doc ue" t c doc_type] show ?thesis by metis
next
  case (recorded t c p r)
  then have "index_entries (fst (upload_document se ue s filename content title description doc_type u))
     = index_entries (fst (add_document se s (uuid_doc ue) t c doc_type))"
    by (simp add: index_entries_def)
  with add_document_entries[of se s "uuid_doc ue" t c doc_type] show ?thesis by metis
qed

lemma upload_document_index_agrees:
  assumes "index_agrees s" and "fresh_doc_id s (uuid_doc ue)"
  shows "index_agrees (fst (upload_document se ue s filename content title description doc_type u))"
proof -
  from upload_document_entries[of se ue s filename content title description doc_type u]
  obtain t chunks where
    "set (index_entries (fst (upload_document se ue s filename content title description doc_type u)))
       \<subseteq> insert placeholder (set (index_entries s))
           \<union> set (chunk_documents (uuid_doc ue) t doc_type chunks)" by blast
  with assms upload_document_documents show ?thesis by (rule index_agrees_extend)
qed

lemma set_delete_one: "set (delete_one p xs) \<subseteq> set xs"
  by (induction xs) auto

lemma register_keeps:
  "documents (fst (register re s user)) = documents s"
  "index_entries (fst (register re s user)) = index_entries s"
  by (auto simp: register_def Let_def index_entries_def split: option.splits)

lemma update_user_keeps:
  "documents (fst (update_user s i upd u)) = documents s"
  "index_entries (fst (update_user s i upd u)) = index_entries s"
  by (auto simp: update_user_def Let_def index_entries_def split: option.splits)

lemma delete_user_keeps:
  "documents (fst (delete_user s i u)) = documents s"
  "index_entries (fst (delete_user s i u)) = index_entries s"
  by (auto simp: delete_user_def Let_def index_entries_def split: option.splits)

lemma delete_session_keeps:
  "documents (fst (delete_session s i u)) = documents s"
  "index_entries (fst (delete_session s i u)) = index_entries s"
  by (auto simp: delete_session_def Let_def index_entries_def split: option.splits)

lemma delete_document_keeps:
  "set (documents (fst (delete_document s i u))) \<subseteq> set (documents s)"
  "index_entries (fst (delete_document s i u)) = index_entries s"
  using set_delete_one[of "\<lambda>d. d_id d = i" "documents s"]
  by (auto simp: delete_document_def Let_def index_entries_def split: option.splits)

lemma restart_entries:
  "set (index_entries (s\<lparr>vector_store := None\<rparr>)) \<subseteq> insert placeholder (set (index_entries s))"
  by (auto simp: index_entries_def split: option.splits)

lemma reachable_index_agrees: "reachable s \<Longrightarrow> index_agrees s"
proof (induction rule: reachable.induct)
  case start
  show ?case by (simp add: index_agrees_def initial_state_def index_entries_def)
next
  case (restart s)
  then show ?case using restart_entries[of s] by (auto intro: index_agrees_mono)
next
  case (register s re user)
  then show ?case by (auto intro: index_agrees_mono simp: register_keeps)
next
  case (update_user s user_id update current_user)
  then show ?case by (auto intro: index_agrees_mono simp: update_user_keeps)
next
  case (delete_user s user_id current_user)
  then show ?case by (auto intro: index_agrees_mono simp: delete_user_keeps)
next
  case (upload_document s ue se filename content title description doc_type current_user)
  then show ?case by (simp add: upload_document_index_agrees)
next
  case (delete_document s doc_id current_user)
  then show ?case using delete_document_keeps[of s doc_id current_user]
    by (auto intro: index_agrees_mono)
next
  case (chat s se ce request current_user)
  show ?case
  proof (rule index_agrees_mono[OF chat.IH])
    show "set (documents (fst (chat se ce s request current_user))) \<subseteq> set (documents s)"
      by (simp add: chat_documents)
    show "set (index_entries (fst (chat se ce s request current_user)))
            \<subseteq> insert placeholder (set (index_entries s))"
      unfolding chat_entries by (rule load_or_create_store_entries)
  qed
next
  case (delete_session s sid current_user)
  then show ?case by (auto intro: index_agrees_mono simp: delete_session_keeps)
qed

lemma chat_Inr:
  assumes "chat se ce s request u = (s', Inr resp)"
  obtains s1 rs where "search se s (message request) 5 (role_doc_types (u_role u)) = (s1, Inr rs)"
    and "r_sources resp = fst (snd (chat_loop (documents s) rs ([], [], {})))"
proof -
  obtain s1 r where sr: "search se s (message request) 5 (role_doc_types (u_role u)) = (s1, r)"
    by (cases "search se s (message request) 5 (role_doc_types (u_role u))")
  have d: "documents s1 = documents s"
    using search_documents[of se s "message request" 5 "role_doc_types (u_role u)"] sr by simp
  show ?thesis
  proof (cases r)
    case (Inl err)
    with sr assms show ?thesis by (simp add: chat_def)
  next
    case (Inr rs)
    with sr assms d have "r_sources resp = fst (snd (chat_loop (documents s) rs ([], [], {})))"
      by (auto simp: chat_def Let_def split: prod.splits)
    with sr Inr that show ?thesis by blast
  qed
qed

lemma search_Inr:
  assumes "search e s q k dts = (s1, Inr rs)"
  obtains st where "load_or_create_store e s = (s1, Inr st)"
    and "rs = (case dts of
                 Some (t # ts) \<Rightarrow> take k (filter (in_doc_types (t # ts))
                                      (similarity_search_with_score e st q (k * 2)))
               | _ \<Rightarrow> similarity_search_with_score e st q k)"
proof -
  obtain s0 r where l: "load_or_create_store e s = (s0, r)" by (cases "load_or_create_store e s")
  show ?thesis
  proof (cases r)
    case (Inl err)
    with l assms show ?thesis by (simp add: search_def)
  next
    case (Inr st)
    with l assms have "s0 = s1" and
      "rs = (case dts of
                 Some (t # ts) \<Rightarrow> take k (filter (in_doc_types (t # ts))
                                      (similarity_search_with_score e st q (k * 2)))
               | _ \<Rightarrow> similarity_search_with_score e st q k)"
      by (auto simp: search_def split: if_splits option.splits list.splits)
    with l Inr that show ?thesis by blast
  qed
qed

lemma find_Some_holds: "find P xs = Some x \<Longrightarrow> x \<in> set xs \<and> P x"
  by (induction xs) (auto split: if_splits)

lemma sim_fst: "r \<in> set (similarity_search_with_score e st q n) \<Longrightarrow> fst r \<in> set st"
proof -
  assume "r \<in> set (similarity_search_with_score e st q n)"
  with sim_set[of e st q n] have "r \<in> (\<lambda>d. (d, dist e q d)) ` set st" by blast
  then show ?thesis by auto
qed

lemma search_results_in_store:
  assumes "search e s q k dts = (s1, Inr rs)" and "r \<in> set rs"
  shows "fst r \<in> set (index_entries s1)"
proof -
  from assms(1) obtain st where l: "load_or_create_store e s = (s1, Inr st)"
    and rs: "rs = (case dts of
                 Some (t # ts) \<Rightarrow> take k (filter (in_doc_types (t # ts))
                                      (similarity_search_with_score e st q (k * 2)))
               | _ \<Rightarrow> similarity_search_with_score e st q k)"
    by (rule search_Inr)
  have "r \<in> set (similarity_search_with_score e st q k)
      \<or> r \<in> set (similarity_search_with_score e st q (k * 2))"
    using assms(2) rs by (auto split: option.splits list.splits dest: in_set_takeD)
  then have "fst r \<in> set st" using sim_fst by blast
  moreover from l have "vector_store s1 = Some st" by (rule load_or_create_store_result)
  ultimately show ?thesis by (simp add: index_entries_def)
qed

lemma search_results_allowed:
  assumes "search e s q k (Some dts) = (s1, Inr rs)" and "dts \<noteq> []" and "r \<in> set rs"
  shows "\<exists>t. md_doc_type (metadata (fst r)) = Some t \<and> t \<in> set dts"
proof -
  from assms(1) obtain st where
    rs: "rs = (case Some dts of
                 Some (t # ts) \<Rightarrow> take k (filter (in_doc_types (t # ts))
                                      (similarity_search_with_score e st q (k * 2)))
               | _ \<Rightarrow> similarity_search_with_score e st q k)"
    by (rule search_Inr)
  from assms(2) obtain t ts where "dts = t # ts" by (cases dts) auto
  with rs assms(3) have "in_doc_types dts r" by (auto dest: in_set_takeD)
  then show ?thesis by (auto simp: in_doc_types_def split: option.splits)
qed

lemma chat_sources_allowed:
  assumes reach: "reachable s" and chat: "chat se ce s request u = (s', Inr resp)"
    and role: "role_doc_types (u_role u) = Some dts" and ne: "dts \<noteq> []"
    and c: "c \<in> set (r_sources resp)"
  shows "s_doc_type c \<in> set dts"
proof -
  from chat obtain s1 rs where
    sr: "search se s (message request) 5 (role_doc_types (u_role u)) = (s1, Inr rs)"
    and src: "r_sources resp = fst (snd (chat_loop (documents s) rs ([], [], {})))"
    by (rule chat_Inr)
  have agrees: "index_agrees (fst (search se s (message request) 5 (role_doc_types (u_role u))))"
  proof (rule index_agrees_mono[OF reachable_index_agrees[OF reach]])
    show "set (documents (fst (search se s (message request) 5 (role_doc_types (u_role u)))))
            \<subseteq> set (documents s)"
      by (simp add: search_documents)
    show "set (index_entries (fst (search se s (message request) 5 (role_doc_types (u_role u)))))
            \<subseteq> insert placeholder (set (index_entries s))"
      by (rule search_entries)
  qed
  have docs1: "documents s1 = documents s"
    using search_documents[of se s "message request" 5 "role_doc_types (u_role u)"] sr by simp
  from chat_loop_sources_origin[of c "documents s" rs] c src
  obtain doc score doc_info where
    first: "find (\<lambda>r. result_doc_id r = s_doc_id c) rs = Some (doc, score)"
    and rec: "find_one (\<lambda>x. d_id x = s_doc_id c) (documents s) = Some doc_info"
    and mk: "c = make_source (s_doc_id c) doc_info score"
    by (auto split: prod.splits)
  have inrs: "(doc, score) \<in> set rs" and id: "md_doc_id (metadata doc) = s_doc_id c"
    using find_Some_holds[OF first] by (auto simp: result_doc_id_def)
  have inrec: "doc_info \<in> set (documents s)" and rid: "d_id doc_info = s_doc_id c"
    using find_Some_holds[OF rec[unfolded find_one_def]] by auto
  from search_results_in_store[OF sr inrs] have "doc \<in> set (index_entries s1)" by simp
  with agrees sr inrec rid id docs1 have "md_doc_type (metadata doc) = Some (d_doc_type doc_info)"
    by (auto simp: index_agrees_def)
  moreover from search_results_allowed[OF sr[unfolded role] ne inrs]
  obtain t where "md_doc_type (metadata doc) = Some t" "t \<in> set dts" by auto
  moreover from mk have "s_doc_type c = d_doc_type doc_info"
    by (metis make_source_def source.select_convs(3))
  ultimately show ?thesis by simp
qed


section \<open>Role visibility of chat\<close>

lemmas ex_defs = ex_env_def ex_upload_env_def ex_user_def ex_chat_env_def ex_request_def
  ex_chunk_def ex_record_def

lemma ex_s1_eq:
  "ex_s1 = \<lparr>users = [], documents = [\<lparr>d_id = ''d1'', d_title = ''Audit'', d_description = '''',
       d_doc_type = ''compliance'', d_filename = ''audit.txt'', d_file_path = ''uploads/d1.txt'',
       d_uploaded_by = ''eng'', d_uploaded_by_name = ''eng'',
       d_created_at = ''2024-01-01T00:00:00+00:00'', d_chunk_count = 1, d_file_size = 11\<rparr>],
     chat_sessions = [], chat_messages = [],
     vector_store = Some [placeholder, ex_chunk ''d1'' ''Audit'' ''compliance'' 0 ''audit rules''],
     faiss_index = Some [placeholder, ex_chunk ''d1'' ''Audit'' ''compliance'' 0 ''audit rules''],
     uploads = [(''uploads/d1.txt'', ''audit rules'')]\<rparr>"
  by (simp add: ex_s1_def upload_document_def add_document_def load_or_create_store_def
        check_permission_def initial_state_def extract_text_def allowed_extensions_def
        strip_def isspace_def chunk_documents_def to_DocumentResponse_def Let_def ex_defs)

lemma ex_s2_eq:
  "ex_s2 = \<lparr>users = [], documents = [\<lparr>d_id = ''d1'', d_title = ''Audit'', d_description = '''',
       d_doc_type = ''compliance'', d_filename = ''audit.txt'', d_file_path = ''uploads/d1.txt'',
       d_uploaded_by = ''eng'', d_uploaded_by_name = ''eng'',
       d_created_at = ''2024-01-01T00:00:00+00:00'', d_chunk_count = 1, d_file_size = 11\<rparr>,
      \<lparr>d_id = ''d2'', d_title = ''Lockout'', d_description = '''',
       d_doc_type = ''sop'', d_filename = ''lockout.txt'', d_file_path = ''uploads/d2.txt'',
       d_uploaded_by = ''eng'', d_uploaded_by_name = ''eng'',
       d_created_at = ''2024-01-01T00:00:00+00:00'', d_chunk_count = 1, d_file_size = 11\<rparr>],
     chat_sessions = [], chat_messages = [],
     vector_store = Some [placeholder, ex_chunk ''d1'' ''Audit'' ''compliance'' 0 ''audit rules'',
                          ex_chunk ''d2'' ''Lockout'' ''sop'' 0 ''wear gloves''],
     faiss_index = Some [placeholder, ex_chunk ''d1'' ''Audit'' ''compliance'' 0 ''audit rules'',
                          ex_chunk ''d2'' ''Lockout'' ''sop'' 0 ''wear gloves''],
     uploads = [(''uploads/d1.txt'', ''audit rules''), (''uploads/d2.txt'', ''wear gloves'')]\<rparr>"
  unfolding ex_s2_def ex_s1_eq
  by (simp add: upload_document_def add_document_def load_or_create_store_def
        check_permission_def extract_text_def allowed_extensions_def
        strip_def isspace_def chunk_documents_def to_DocumentResponse_def Let_def ex_defs)

lemma ex_s2_reachable: "reachable ex_s2"
  unfolding ex_s2_def
proof (rule reachable.upload_document)
  show "reachable ex_s1"
    unfolding ex_s1_def
    by (rule reachable.upload_document[OF reachable.start])
       (simp add: fresh_doc_id_def initial_state_def index_entries_def ex_upload_env_def)
  show "fresh_doc_id ex_s1 (uuid_doc (ex_upload_env ''d2''))"
    unfolding ex_s1_eq
    by (simp add: fresh_doc_id_def index_entries_def ex_upload_env_def placeholder_def ex_chunk_def)
qed

lemma ex_chat_technician:
  "snd (chat ex_env ex_chat_env ex_s2 ex_request (ex_user ''tech'' Technician)) =
     Inr \<lparr>r_session_id = ''s1'',
          r_message = \<lparr>cm_role = Assistant, cm_content = ''Wear gloves.'',
                       cm_sources = Some [\<lparr>s_doc_id = ''d2'', s_title = ''Lockout'',
                                            s_doc_type = ''sop'', relevance_score = 1\<rparr>],
                       cm_timestamp = ''2024-01-02T00:00:01+00:00''\<rparr>,
          r_sources = [\<lparr>s_doc_id = ''d2'', s_title = ''Lockout'',
                        s_doc_type = ''sop'', relevance_score = 1\<rparr>]\<rparr>"
  unfolding ex_s2_eq
  by (simp add: chat_def search_def load_or_create_store_def role_doc_types_def
        similarity_search_with_score_def in_doc_types_def resolve_session_def
        find_one_def make_source_def context_part_def session_title_def
        placeholder_def Let_def ex_defs)

text \<open>
  Claim C1. In every reachable state, a chat request that succeeds cites documents and
  retrieves context chunks by the requester's role only: the citations are those of the
  retrieval loop over what the search returned; for a technician every citation and every
  retrieved chunk has \<open>doc_type\<close> \<open>sop\<close>; for a viewer \<open>sop\<close> or \<open>manual\<close>; for an
  admin or an engineer the search is the plain five nearest entries of the whole index,
  with no filter on the type.
\<close>

theorem chat_role_visibility:
  assumes "reachable s" and "chat se ce s request u = (s', Inr resp)"
  shows "(\<exists>rs. chat_retrieved se s request u = Inr rs
             \<and> r_sources resp = fst (snd (chat_loop (documents s) rs ([], [], {}))))
       \<and> (u_role u = Technician \<longrightarrow>
             (\<forall>c \<in> set (r_sources resp). s_doc_type c = ''sop'')
           \<and> (\<forall>rs. chat_retrieved se s request u = Inr rs \<longrightarrow>
                 (\<forall>r \<in> set rs. md_doc_type (metadata (fst r)) = Some ''sop'')))
       \<and> (u_role u = Viewer \<longrightarrow>
             (\<forall>c \<in> set (r_sources resp). s_doc_type c = ''sop'' \<or> s_doc_type c = ''manual'')
           \<and> (\<forall>rs. chat_retrieved se s request u = Inr rs \<longrightarrow>
                 (\<forall>r \<in> set rs. md_doc_type (metadata (fst r)) = Some ''sop''
                              \<or> md_doc_type (metadata (fst r)) = Some ''manual'')))
       \<and> (u_role u = Admin \<or> u_role u = Engineer \<longrightarrow>
             (\<exists>st. snd (load_or_create_store se s) = Inr st
                 \<and> chat_retrieved se s request u
                     = Inr (similarity_search_with_score se st (message request) 5)))"
proof -
  from assms(2) obtain s1 rs where
    sr: "search se s (message request) 5 (role_doc_types (u_role u)) = (s1, Inr rs)"
    and src: "r_sources resp = fst (snd (chat_loop (documents s) rs ([], [], {})))"
    by (rule chat_Inr)
  have retrieved: "chat_retrieved se s request u = Inr rs"
    by (simp add: chat_retrieved_def sr)
  have limited: "(\<forall>c \<in> set (r_sources resp). s_doc_type c \<in> set dts)
      \<and> (\<forall>r \<in> set rs. \<exists>t. md_doc_type (metadata (fst r)) = Some t \<and> t \<in> set dts)"
    if "role_doc_types (u_role u) = Some dts" and "dts \<noteq> []" for dts
    using chat_sources_allowed[OF assms that] search_results_allowed[OF sr[unfolded that(1)] that(2)]
    by blast
  have tech: "u_role u = Technician \<Longrightarrow>
             (\<forall>c \<in> set (r_sources resp). s_doc_type c = ''sop'')
           \<and> (\<forall>r \<in> set rs. md_doc_type (metadata (fst r)) = Some ''sop'')"
    using limited[of "[''sop'']"] by (simp add: role_doc_types_def)
  have view: "u_role u = Viewer \<Longrightarrow>
             (\<forall>c \<in> set (r_sources resp). s_doc_type c = ''sop'' \<or> s_doc_type c = ''manual'')
           \<and> (\<forall>r \<in> set rs. md_doc_type (metadata (fst r)) = Some ''sop''
                              \<or> md_doc_type (metadata (fst r)) = Some ''manual'')"
    using limited[of "[''sop'', ''manual'']"] by (fastforce simp: role_doc_types_def)
  have free: "\<exists>st. snd (load_or_create_store se s) = Inr st
                 \<and> chat_retrieved se s request u
                     = Inr (similarity_search_with_score se st (message request) 5)"
    if "u_role u = Admin \<or> u_role u = Engineer"
  proof -
    from that have none: "role_doc_types (u_role u) = None" by (auto simp: role_doc_types_def)
    from sr[unfolded none] obtain st where "load_or_create_store se s = (s1, Inr st)"
      and "rs = similarity_search_with_score se st (message request) 5"
      by (rule search_Inr) simp
    with retrieved show ?thesis by simp
  qed
  from retrieved src tech view free show ?thesis by simp
qed

theorem chat_role_visibility_witness:
  "reachable ex_s2
   \<and> (\<exists>resp. snd (chat ex_env ex_chat_env ex_s2 ex_request (ex_user ''tech'' Technician)) = Inr resp
        \<and> map s_doc_id (r_sources resp) = [''d2'']
        \<and> (\<forall>c \<in> set (r_sources resp). s_doc_type c = ''sop''))"
proof -
  let ?c = "chat ex_env ex_chat_env ex_s2 ex_request (ex_user ''tech'' Technician)"
  obtain resp where r: "snd ?c = Inr resp" and ids: "map s_doc_id (r_sources resp) = [''d2'']"
    using ex_chat_technician by simp
  then have c: "?c = (fst ?c, Inr resp)" by (metis prod.collapse)
  have "u_role (ex_user ''tech'' Technician) = Technician" by (simp add: ex_user_def)
  with chat_role_visibility[OF ex_s2_reachable c]
  have "\<forall>c \<in> set (r_sources resp). s_doc_type c = ''sop''" by blast
  with r ids have "\<exists>resp. snd ?c = Inr resp
        \<and> map s_doc_id (r_sources resp) = [''d2'']
        \<and> (\<forall>c \<in> set (r_sources resp). s_doc_type c = ''sop'')"
    by (intro exI[of _ resp] conjI)
  with ex_s2_reachable show ?thesis by (rule conjI)
qed

section \<open>What a successful chat request leaves behind\<close>

lemma search_chat_fields:
  "chat_sessions (fst (search e s q k dts)) = chat_sessions s"
  "chat_messages (fst (search e s q k dts)) = chat_messages s"
  by (auto simp: search_def load_or_create_store_def store_fallback_def
           split: prod.splits sum.splits option.splits list.splits)

lemma resolve_session_eq:
  "resolve_session ce s request u =
     (chat_sid ce request,
      if starts_session request
      then s\<lparr>chat_sessions := chat_sessions s @ [new_session ce request u]\<rparr> else s)"
  by (auto simp: resolve_session_def chat_sid_def starts_session_def new_session_def Let_def
           split: option.splits)

lemma chat_success:
  assumes "chat se ce s request u = (s', Inr resp)"
  obtains rs context_parts sources seen_docs reply where
    "chat_retrieved se s request u = Inr rs"
    "chat_loop (documents s) rs ([], [], {}) = (context_parts, sources, seen_docs)"
    "reply = (case send_message ce (''rag_'' @ chat_sid ce request @ ''_'' @ uuid_llm_hex ce)
                     (system_prompt (context_of context_parts)) (message request) of
                Some t \<Rightarrow> t | None \<Rightarrow> fallback_text sources)"
    "resp = \<lparr>r_session_id = chat_sid ce request,
             r_message = \<lparr>cm_role = Assistant, cm_content = reply, cm_sources = Some sources,
                          cm_timestamp = now_assistant_msg ce\<rparr>,
             r_sources = sources\<rparr>"
    "chat_messages s' = chat_messages s @
        [user_turn ce request, assistant_turn ce request reply sources]"
    "chat_sessions s' =
        update_one (\<lambda>c. cs_id c = chat_sid ce request) (touch ce)
          (if starts_session request then chat_sessions s @ [new_session ce request u]
           else chat_sessions s)"
proof -
  obtain s1 r where sr: "search se s (message request) 5 (role_doc_types (u_role u)) = (s1, r)"
    by (cases "search se s (message request) 5 (role_doc_types (u_role u))")
  have keep: "documents s1 = documents s" "chat_sessions s1 = chat_sessions s"
      "chat_messages s1 = chat_messages s"
    using search_documents[of se s "message request" 5 "role_doc_types (u_role u)"]
      search_chat_fields[of se s "message request" 5 "role_doc_types (u_role u)"] sr by simp_all
  show ?thesis
  proof (cases r)
    case (Inl err)
    with sr assms show ?thesis by (simp add: chat_def)
  next
    case (Inr rs)
    obtain cp srcs seen where loop: "chat_loop (documents s) rs ([], [], {}) = (cp, srcs, seen)"
      by (cases "chat_loop (documents s) rs ([], [], {})")
    from sr Inr have retrieved: "chat_retrieved se s request u = Inr rs"
      by (simp add: chat_retrieved_def)
    define reply where
      "reply = (case send_message ce (''rag_'' @ chat_sid ce request @ ''_'' @ uuid_llm_hex ce)
                       (system_prompt (context_of cp))
                       (message request) of
                  Some t \<Rightarrow> t | None \<Rightarrow> fallback_text srcs)"
    define s2 where
      "s2 = (if starts_session request
             then s1\<lparr>chat_sessions := chat_sessions s1 @ [new_session ce request u]\<rparr> else s1)"
    have "chat se ce s request u =
            (s2\<lparr>chat_messages := chat_messages s2 @
                    [user_turn ce request, assistant_turn ce request reply srcs],
                chat_sessions := update_one (\<lambda>c. cs_id c = chat_sid ce request) (touch ce)
                                   (chat_sessions s2)\<rparr>,
             Inr \<lparr>r_session_id = chat_sid ce request,
                  r_message = \<lparr>cm_role = Assistant, cm_content = reply, cm_sources = Some srcs,
                               cm_timestamp = now_assistant_msg ce\<rparr>,
                  r_sources = srcs\<rparr>)"
      unfolding reply_def s2_def
      by (simp add: chat_def sr Inr keep loop resolve_session_eq Let_def user_turn_def
            assistant_turn_def touch_def context_of_def)
    with assms have s': "s' = s2\<lparr>chat_messages := chat_messages s2 @
                    [user_turn ce request, assistant_turn ce request reply srcs],
                chat_sessions := update_one (\<lambda>c. cs_id c = chat_sid ce request) (touch ce)
                                   (chat_sessions s2)\<rparr>"
      and resp: "resp = \<lparr>r_session_id = chat_sid ce request,
                  r_message = \<lparr>cm_role = Assistant, cm_content = reply, cm_sources = Some srcs,
                               cm_timestamp = now_assistant_msg ce\<rparr>,
                  r_sources = srcs\<rparr>"
      by simp_all
    have msgs: "chat_messages s' = chat_messages s @
            [user_turn ce request, assistant_turn ce request reply srcs]"
      by (simp add: s' s2_def keep)
    have sess: "chat_sessions s' =
        update_one (\<lambda>c. cs_id c = chat_sid ce request) (touch ce)
          (if starts_session request then chat_sessions s @ [new_session ce request u]
           else chat_sessions s)"
      by (simp add: s' s2_def keep)
    show ?thesis by (rule that[OF retrieved loop reply_def resp msgs sess])
  qed
qed

section \<open>Failure of the language model\<close>

lemma chat_fails_iff:
  "snd (chat se ce s request u) = Inl e \<longleftrightarrow> chat_retrieved se s request u = Inl e"
proof -
  obtain s1 r where sr: "search se s (message request) 5 (role_doc_types (u_role u)) = (s1, r)"
    by (cases "search se s (message request) 5 (role_doc_types (u_role u))")
  show ?thesis
  proof (cases r)
    case (Inl err)
    with sr show ?thesis by (simp add: chat_def chat_retrieved_def)
  next
    case (Inr rs)
    with sr show ?thesis
      by (simp add: chat_def chat_retrieved_def Let_def split: prod.splits)
  qed
qed

lemma chat_succeeds:
  assumes "chat_retrieved se s request u = Inr rs"
  shows "\<exists>s' resp. chat se ce s request u = (s', Inr resp)"
proof (cases "snd (chat se ce s request u)")
  case (Inl e)
  with chat_fails_iff[of se ce s request u e] assms show ?thesis by simp
next
  case (Inr resp)
  then have "chat se ce s request u = (fst (chat se ce s request u), Inr resp)"
    by (metis prod.collapse)
  then show ?thesis by blast
qed

text \<open>
  Claim C5. When every call of the language-model collaborator raises, the chat request
  fails only if retrieval itself fails; whenever retrieval returns, the request succeeds,
  its assistant message is the fallback text listing the titles of the citations found and
  saying that generating a detailed response failed, and this message is stored after the
  user's, with the citations as its sources.
\<close>

theorem chat_llm_failure_degraded:
  assumes "\<And>sid sys msg. send_message ce sid sys msg = None"
  shows "(\<forall>e. snd (chat se ce s request u) = Inl e \<longrightarrow> chat_retrieved se s request u = Inl e)
       \<and> (\<forall>rs. chat_retrieved se s request u = Inr rs \<longrightarrow>
            (\<exists>s' resp. chat se ce s request u = (s', Inr resp)
               \<and> r_sources resp = fst (snd (chat_loop (documents s) rs ([], [], {})))
               \<and> cm_content (r_message resp) =
                   ''I found relevant information in the following documents: '' @
                   join '', '' (map s_title (r_sources resp)) @
                   ''. However, I encountered an error generating a detailed response. Please try again.''
               \<and> cm_sources (r_message resp) = Some (r_sources resp)
               \<and> chat_messages s' = chat_messages s @
                    [user_turn ce request,
                     \<lparr>m_id = uuid_assistant_msg ce, m_session_id = r_session_id resp,
                      m_role = Assistant, m_content = cm_content (r_message resp),
                      m_sources = Some (r_sources resp),
                      m_timestamp = now_assistant_msg ce\<rparr>]))"
proof (intro conjI allI impI)
  fix e assume "snd (chat se ce s request u) = Inl e"
  then show "chat_retrieved se s request u = Inl e" by (simp add: chat_fails_iff)
next
  fix rs assume rs: "chat_retrieved se s request u = Inr rs"
  from chat_succeeds[OF rs] obtain s' resp where c: "chat se ce s request u = (s', Inr resp)"
    by blast
  from c obtain rs' context_parts sources seen_docs reply where
    rs': "chat_retrieved se s request u = Inr rs'"
    and loop: "chat_loop (documents s) rs' ([], [], {}) = (context_parts, sources, seen_docs)"
    and reply: "reply = (case send_message ce (''rag_'' @ chat_sid ce request @ ''_'' @ uuid_llm_hex ce)
                     (system_prompt (context_of context_parts)) (message request) of
                Some t \<Rightarrow> t | None \<Rightarrow> fallback_text sources)"
    and resp: "resp = \<lparr>r_session_id = chat_sid ce request,
             r_message = \<lparr>cm_role = Assistant, cm_content = reply, cm_sources = Some sources,
                          cm_timestamp = now_assistant_msg ce\<rparr>,
             r_sources = sources\<rparr>"
    and msgs: "chat_messages s' = chat_messages s @
        [user_turn ce request, assistant_turn ce request reply sources]"
    by (rule chat_success)
  from rs rs' have same: "rs' = rs" by simp
  from reply assms have fb: "reply = fallback_text sources" by simp
  have "r_sources resp = fst (snd (chat_loop (documents s) rs ([], [], {})))"
    using loop same by (simp add: resp)
  moreover have "cm_content (r_message resp) =
                   ''I found relevant information in the following documents: '' @
                   join '', '' (map s_title (r_sources resp)) @
                   ''. However, I encountered an error generating a detailed response. Please try again.''"
    by (simp add: resp fb fallback_text_def)
  moreover have "cm_sources (r_message resp) = Some (r_sources resp)" by (simp add: resp)
  moreover have "chat_messages s' = chat_messages s @
                    [user_turn ce request,
                     \<lparr>m_id = uuid_assistant_msg ce, m_session_id = r_session_id resp,
                      m_role = Assistant, m_content = cm_content (r_message resp),
                      m_sources = Some (r_sources resp),
                      m_timestamp = now_assistant_msg ce\<rparr>]"
    by (simp add: msgs resp assistant_turn_def)
  ultimately show "\<exists>s' resp. chat se ce s request u = (s', Inr resp)
               \<and> r_sources resp = fst (snd (chat_loop (documents s) rs ([], [], {})))
               \<and> cm_content (r_message resp) =
                   ''I found relevant information in the following documents: '' @
                   join '', '' (map s_title (r_sources resp)) @
                   ''. However, I encountered an error generating a detailed response. Please try again.''
               \<and> cm_sources (r_message resp) = Some (r_sources resp)
               \<and> chat_messages s' = chat_messages s @
                    [user_turn ce request,
                     \<lparr>m_id = uuid_assistant_msg ce, m_session_id = r_session_id resp,
                      m_role = Assistant, m_content = cm_content (r_message resp),
                      m_sources = Some (r_sources resp),
                      m_timestamp = now_assistant_msg ce\<rparr>]"
    using c by blast
qed

lemma ex_retrieved_admin:
  "chat_retrieved ex_env ex_s2 ex_request (ex_user ''adm'' Admin) =
     Inr [(placeholder, 0), (ex_chunk ''d1'' ''Audit'' ''compliance'' 0 ''audit rules'', 0),
          (ex_chunk ''d2'' ''Lockout'' ''sop'' 0 ''wear gloves'', 0)]"
  unfolding ex_s2_eq
  by (simp add: chat_retrieved_def search_def load_or_create_store_def role_doc_types_def
        similarity_search_with_score_def ex_defs placeholder_def)

theorem chat_llm_failure_degraded_witness:
  "\<exists>s' resp. chat ex_env ex_chat_env_down ex_s2 ex_request (ex_user ''adm'' Admin) = (s', Inr resp)
     \<and> cm_content (r_message resp) =
         ''I found relevant information in the following documents: Audit, Lockout. However, I encountered an error generating a detailed response. Please try again.''
     \<and> map m_content (chat_messages s') = [''gloves'', cm_content (r_message resp)]"
proof -
  have down: "\<And>sid sys msg. send_message ex_chat_env_down sid sys msg = None"
    by (simp add: ex_chat_env_down_def)
  from chat_llm_failure_degraded[OF down, of ex_env ex_s2 ex_request "ex_user ''adm'' Admin"]
    ex_retrieved_admin
  obtain s' resp where
    c: "chat ex_env ex_chat_env_down ex_s2 ex_request (ex_user ''adm'' Admin) = (s', Inr resp)"
    and src: "r_sources resp = fst (snd (chat_loop (documents ex_s2)
         [(placeholder, 0), (ex_chunk ''d1'' ''Audit'' ''compliance'' 0 ''audit rules'', 0),
          (ex_chunk ''d2'' ''Lockout'' ''sop'' 0 ''wear gloves'', 0)] ([], [], {})))"
    and content: "cm_content (r_message resp) =
                   ''I found relevant information in the following documents: '' @
                   join '', '' (map s_title (r_sources resp)) @
                   ''. However, I encountered an error generating a detailed response. Please try again.''"
    and msgs: "chat_messages s' = chat_messages ex_s2 @
                    [user_turn ex_chat_env_down ex_request,
                     \<lparr>m_id = uuid_assistant_msg ex_chat_env_down, m_session_id = r_session_id resp,
                      m_role = Assistant, m_content = cm_content (r_message resp),
                      m_sources = Some (r_sources resp),
                      m_timestamp = now_assistant_msg ex_chat_env_down\<rparr>]"
    by blast
  have titles: "map s_title (r_sources resp) = [''Audit'', ''Lockout'']"
    unfolding src ex_s2_eq
    by (simp add: placeholder_def ex_defs find_one_def make_source_def Let_def)
  have degraded: "cm_content (r_message resp) =
         ''I found relevant information in the following documents: Audit, Lockout. However, I encountered an error generating a detailed response. Please try again.''"
    unfolding content titles by simp
  have turns: "map m_content (chat_messages s') = [''gloves'', cm_content (r_message resp)]"
    unfolding msgs ex_s2_eq by (simp add: user_turn_def ex_defs)
  from c degraded turns show ?thesis by (intro exI[of _ s'] exI[of _ resp] conjI)
qed

section \<open>A chat request that names a session\<close>

lemma update_one_no_match: "\<forall>x \<in> set xs. \<not> p x \<Longrightarrow> update_one p f xs = xs"
  by (induction xs) auto

lemma update_one_append_fresh:
  "\<forall>y \<in> set xs. \<not> p y \<Longrightarrow> p x \<Longrightarrow> update_one p f (xs @ [x]) = xs @ [f x]"
  by (induction xs) auto

lemma length_update_one: "length (update_one p f xs) = length xs"
  by (induction xs) auto

lemma find_one_update_one:
  "find_one p xs = Some c \<Longrightarrow> p (f c) \<Longrightarrow> find_one p (update_one p f xs) = Some (f c)"
  unfolding find_one_def by (induction xs) (auto split: if_splits)

lemma find_one_append_fresh:
  "\<forall>y \<in> set xs. \<not> p y \<Longrightarrow> p x \<Longrightarrow> find_one p (xs @ [x]) = Some x"
  unfolding find_one_def by (induction xs) auto

lemma find_one_None_iff: "find_one p xs = None \<longleftrightarrow> (\<forall>x \<in> set xs. \<not> p x)"
  unfolding find_one_def by (auto simp: find_None_iff)

lemma chat_sid_given: "session_id request = Some sid \<Longrightarrow> sid \<noteq> [] \<Longrightarrow> chat_sid ce request = sid"
  by (simp add: chat_sid_def)

lemma starts_session_given:
  "session_id request = Some sid \<Longrightarrow> sid \<noteq> [] \<Longrightarrow> \<not> starts_session request"
  by (simp add: starts_session_def)

text \<open>
  Claim C10, amended. A chat request that supplies a session id that is not empty is not
  checked against the stored sessions: it fails only when retrieval fails, and when it
  succeeds the user message and the assistant message are appended under exactly that
  session id, whoever owns the session and whether or not it exists; no session document
  is created, and when no session has that id the session collection is left as it was
  (the final update matches nothing). An empty session id is treated as an absent one.
\<close>

theorem chat_given_session_unchecked:
  assumes "session_id request = Some sid" and "sid \<noteq> []"
  shows "(\<forall>e. snd (chat se ce s request u) = Inl e \<longleftrightarrow> chat_retrieved se s request u = Inl e)
       \<and> (\<forall>s' resp. chat se ce s request u = (s', Inr resp) \<longrightarrow>
             r_session_id resp = sid
           \<and> (\<exists>reply. chat_messages s' = chat_messages s @
                  [\<lparr>m_id = uuid_user_msg ce, m_session_id = sid, m_role = User,
                    m_content = message request, m_sources = None,
                    m_timestamp = now_user_msg ce\<rparr>,
                   \<lparr>m_id = uuid_assistant_msg ce, m_session_id = sid, m_role = Assistant,
                    m_content = reply, m_sources = Some (r_sources resp),
                    m_timestamp = now_assistant_msg ce\<rparr>])
           \<and> length (chat_sessions s') = length (chat_sessions s)
           \<and> (session_of s sid = None \<longrightarrow>
                 chat_sessions s' = chat_sessions s \<and> session_of s' sid = None))"
proof (intro conjI allI impI)
  fix e
  show "snd (chat se ce s request u) = Inl e \<longleftrightarrow> chat_retrieved se s request u = Inl e"
    by (rule chat_fails_iff)
next
  fix s' resp assume c: "chat se ce s request u = (s', Inr resp)"
  from c obtain rs context_parts sources seen_docs reply where
    resp: "resp = \<lparr>r_session_id = chat_sid ce request,
             r_message = \<lparr>cm_role = Assistant, cm_content = reply, cm_sources = Some sources,
                          cm_timestamp = now_assistant_msg ce\<rparr>,
             r_sources = sources\<rparr>"
    and msgs: "chat_messages s' = chat_messages s @
        [user_turn ce request, assistant_turn ce request reply sources]"
    and sess: "chat_sessions s' =
        update_one (\<lambda>c. cs_id c = chat_sid ce request) (touch ce)
          (if starts_session request then chat_sessions s @ [new_session ce request u]
           else chat_sessions s)"
    by (rule chat_success)
  note sid = chat_sid_given[OF assms, of ce] and old = starts_session_given[OF assms]
  show "r_session_id resp = sid" by (simp add: resp sid)
  show "\<exists>reply. chat_messages s' = chat_messages s @
                  [\<lparr>m_id = uuid_user_msg ce, m_session_id = sid, m_role = User,
                    m_content = message request, m_sources = None,
                    m_timestamp = now_user_msg ce\<rparr>,
                   \<lparr>m_id = uuid_assistant_msg ce, m_session_id = sid, m_role = Assistant,
                    m_content = reply, m_sources = Some (r_sources resp),
                    m_timestamp = now_assistant_msg ce\<rparr>]"
    by (rule exI[of _ reply]) (simp add: msgs resp sid user_turn_def assistant_turn_def)
  show "length (chat_sessions s') = length (chat_sessions s)"
    by (simp add: sess old length_update_one)
  {
    assume none: "session_of s sid = None"
    then have "\<forall>c \<in> set (chat_sessions s). \<not> cs_id c = sid"
      by (simp add: session_of_def find_one_None_iff)
    then have same: "chat_sessions s' = chat_sessions s"
      by (simp add: sess old sid update_one_no_match)
    then show "chat_sessions s' = chat_sessions s" .
    from same none show "session_of s' sid = None" by (simp add: session_of_def)
  }
qed

text \<open>
  Claim C10 as stated fails for the session id that is present but empty: the request
  starts a new session under a generated id and stores both messages under that id.
\<close>

theorem chat_empty_session_id_counterexample:
  "session_id ex_request_empty_sid \<noteq> None
   \<and> map m_session_id (chat_messages (fst (chat ex_env ex_chat_env ex_s2 ex_request_empty_sid
                                              (ex_user ''adm'' Admin)))) = [''s1'', ''s1'']
   \<and> chat_sessions ex_s2 = []
   \<and> map cs_id (chat_sessions (fst (chat ex_env ex_chat_env ex_s2 ex_request_empty_sid
                                        (ex_user ''adm'' Admin)))) = [''s1'']"
  unfolding ex_s2_eq
  by (simp add: chat_def search_def load_or_create_store_def role_doc_types_def
        similarity_search_with_score_def resolve_session_def
        find_one_def make_source_def context_part_def session_title_def
        placeholder_def Let_def ex_defs ex_request_empty_sid_def)

lemma ex_chat_other:
  "\<exists>s' resp. chat ex_env ex_chat_env ex_s2 ex_request_other (ex_user ''adm'' Admin) = (s', Inr resp)"
proof (rule chat_succeeds)
  show "chat_retrieved ex_env ex_s2 ex_request_other (ex_user ''adm'' Admin) =
     Inr [(placeholder, 0), (ex_chunk ''d1'' ''Audit'' ''compliance'' 0 ''audit rules'', 0),
          (ex_chunk ''d2'' ''Lockout'' ''sop'' 0 ''wear gloves'', 0)]"
    unfolding ex_s2_eq
    by (simp add: chat_retrieved_def search_def load_or_create_store_def role_doc_types_def
          similarity_search_with_score_def ex_defs placeholder_def ex_request_other_def)
qed

theorem chat_given_session_unchecked_witness:
  "\<exists>s' resp. chat ex_env ex_chat_env ex_s2 ex_request_other (ex_user ''adm'' Admin) = (s', Inr resp)
     \<and> map m_session_id (chat_messages s') = [''not-a-session'', ''not-a-session'']
     \<and> chat_sessions s' = []"
proof -
  from ex_chat_other obtain s' resp where
    c: "chat ex_env ex_chat_env ex_s2 ex_request_other (ex_user ''adm'' Admin) = (s', Inr resp)"
    by blast
  have sid: "session_id ex_request_other = Some ''not-a-session''" "''not-a-session'' \<noteq> []"
    by (simp_all add: ex_request_other_def)
  have none: "session_of ex_s2 ''not-a-session'' = None"
    unfolding ex_s2_eq by (simp add: session_of_def find_one_def)
  from chat_given_session_unchecked[OF sid, of ex_env ex_chat_env ex_s2 "ex_user ''adm'' Admin"] c none
  obtain reply where
    m: "chat_messages s' = chat_messages ex_s2 @
                  [\<lparr>m_id = uuid_user_msg ex_chat_env, m_session_id = ''not-a-session'', m_role = User,
                    m_content = message ex_request_other, m_sources = None,
                    m_timestamp = now_user_msg ex_chat_env\<rparr>,
                   \<lparr>m_id = uuid_assistant_msg ex_chat_env, m_session_id = ''not-a-session'',
                    m_role = Assistant,
                    m_content = reply, m_sources = Some (r_sources resp),
                    m_timestamp = now_assistant_msg ex_chat_env\<rparr>]"
    and cs: "chat_sessions s' = chat_sessions ex_s2"
    by blast
  have m': "map m_session_id (chat_messages s') = [''not-a-session'', ''not-a-session'']"
    unfolding m ex_s2_eq by simp
  have cs': "chat_sessions s' = []" unfolding cs ex_s2_eq by simp
  from c m' cs' show ?thesis by (intro exI[of _ s'] exI[of _ resp] conjI)
qed

section \<open>Session bookkeeping of chat\<close>

lemma cm_timestamp_to_ChatMessage: "cm_timestamp (to_ChatMessage m) = m_timestamp m"
  by (simp add: to_ChatMessage_def)

lemma listed_sorted:
  "sorted (map cm_timestamp (map to_ChatMessage (take n (sort_key m_timestamp ms))))"
proof -
  have "sorted (map m_timestamp (sort_key m_timestamp ms))" by (rule sorted_sort_key)
  then have "sorted (take n (map m_timestamp (sort_key m_timestamp ms)))" by (rule sorted_wrt_take)
  then show ?thesis by (simp add: take_map o_def cm_timestamp_to_ChatMessage)
qed

lemma listed_mset:
  "length ms \<le> n \<Longrightarrow>
   mset (map to_ChatMessage (take n (sort_key m_timestamp ms))) = mset (map to_ChatMessage ms)"
  by simp

lemma get_session_messages_fresh:
  assumes "\<forall>c \<in> set sessions. cs_id c \<noteq> sid" and "cs_id x = sid" and "cs_user_id x = u_id u"
    and "\<forall>m \<in> set old. m_session_id m \<noteq> sid" and "\<forall>m \<in> set new. m_session_id m = sid"
    and "chat_sessions s = sessions @ [x]" and "chat_messages s = old @ new"
  shows "get_session_messages s sid u =
           Inr (map to_ChatMessage (take 1000 (sort_key m_timestamp new)))"
proof -
  have "find_one (\<lambda>c. cs_id c = sid \<and> cs_user_id c = u_id u) (chat_sessions s) = Some x"
    unfolding assms(6) using assms(1,2,3) by (intro find_one_append_fresh) auto
  moreover have "filter (\<lambda>m. m_session_id m = sid) (chat_messages s) = new"
    unfolding assms(7) using assms(4,5) by (simp add: filter_id_conv)
  ultimately show ?thesis by (simp add: get_session_messages_def)
qed

lemma chat_exchange_messages:
  assumes "chat se ce s request u = (s', Inr resp)"
  shows "chat_messages s' = chat_messages s @
           [\<lparr>m_id = uuid_user_msg ce, m_session_id = r_session_id resp, m_role = User,
             m_content = message request, m_sources = None, m_timestamp = now_user_msg ce\<rparr>,
            \<lparr>m_id = uuid_assistant_msg ce, m_session_id = r_session_id resp, m_role = Assistant,
             m_content = cm_content (r_message resp), m_sources = Some (r_sources resp),
             m_timestamp = now_assistant_msg ce\<rparr>]"
    and "r_session_id resp = chat_sid ce request"
    and "cm_timestamp (r_message resp) = now_assistant_msg ce"
    and "cm_role (r_message resp) = Assistant"
    and "cm_sources (r_message resp) = Some (r_sources resp)"
    and "chat_sessions s' =
        update_one (\<lambda>c. cs_id c = chat_sid ce request) (touch ce)
          (if starts_session request then chat_sessions s @ [new_session ce request u]
           else chat_sessions s)"
proof -
  from assms obtain rs context_parts sources seen_docs reply where
    resp: "resp = \<lparr>r_session_id = chat_sid ce request,
             r_message = \<lparr>cm_role = Assistant, cm_content = reply, cm_sources = Some sources,
                          cm_timestamp = now_assistant_msg ce\<rparr>,
             r_sources = sources\<rparr>"
    and msgs: "chat_messages s' = chat_messages s @
        [user_turn ce request, assistant_turn ce request reply sources]"
    and sess: "chat_sessions s' =
        update_one (\<lambda>c. cs_id c = chat_sid ce request) (touch ce)
          (if starts_session request then chat_sessions s @ [new_session ce request u]
           else chat_sessions s)"
    by (rule chat_success)
  show "chat_messages s' = chat_messages s @
           [\<lparr>m_id = uuid_user_msg ce, m_session_id = r_session_id resp, m_role = User,
             m_content = message request, m_sources = None, m_timestamp = now_user_msg ce\<rparr>,
            \<lparr>m_id = uuid_assistant_msg ce, m_session_id = r_session_id resp, m_role = Assistant,
             m_content = cm_content (r_message resp), m_sources = Some (r_sources resp),
             m_timestamp = now_assistant_msg ce\<rparr>]"
    by (simp add: msgs resp user_turn_def assistant_turn_def)
  show "r_session_id resp = chat_sid ce request" "cm_timestamp (r_message resp) = now_assistant_msg ce"
    "cm_role (r_message resp) = Assistant" "cm_sources (r_message resp) = Some (r_sources resp)"
    by (simp_all add: resp)
  show "chat_sessions s' =
        update_one (\<lambda>c. cs_id c = chat_sid ce request) (touch ce)
          (if starts_session request then chat_sessions s @ [new_session ce request u]
           else chat_sessions s)" by (rule sess)
qed

lemma chat_existing_session:
  assumes "chat se ce s request u = (s', Inr resp)" and "\<not> starts_session request"
    and "session_of s (r_session_id resp) = Some c"
  shows "session_of s' (r_session_id resp) =
           Some (c\<lparr>cs_updated_at := now_update ce, message_count := message_count c + 2\<rparr>)"
proof -
  note f = chat_exchange_messages[OF assms(1)]
  from assms(3) have "find_one (\<lambda>c. cs_id c = chat_sid ce request) (chat_sessions s) = Some c"
    by (simp add: session_of_def f(2))
  moreover from this have "cs_id c = chat_sid ce request"
    using find_Some_holds[of "\<lambda>c. cs_id c = chat_sid ce request" "chat_sessions s" c]
    by (simp add: find_one_def)
  ultimately have "find_one (\<lambda>c. cs_id c = chat_sid ce request)
                     (update_one (\<lambda>c. cs_id c = chat_sid ce request) (touch ce) (chat_sessions s))
                   = Some (touch ce c)"
    by (intro find_one_update_one) (simp_all add: touch_def)
  then show ?thesis by (simp add: session_of_def f(2,6) assms(2) touch_def)
qed

lemma chat_started_session:
  assumes "chat se ce s request u = (s', Inr resp)" and "starts_session request"
    and "session_of s (uuid_session ce) = None"
  shows "r_session_id resp = uuid_session ce"
    and "chat_sessions s' = chat_sessions s @
           [\<lparr>cs_id = uuid_session ce, cs_user_id = u_id u,
             cs_title = session_title (message request),
             cs_created_at = now_session_created ce, cs_updated_at = now_update ce,
             message_count = 2\<rparr>]"
proof -
  note f = chat_exchange_messages[OF assms(1)]
  from assms(2) have sid: "chat_sid ce request = uuid_session ce"
    by (auto simp: starts_session_def chat_sid_def)
  show "r_session_id resp = uuid_session ce" by (simp add: f(2) sid)
  from assms(3) have "\<forall>c \<in> set (chat_sessions s). \<not> cs_id c = uuid_session ce"
    by (simp add: session_of_def find_one_None_iff)
  then have "update_one (\<lambda>c. cs_id c = uuid_session ce) (touch ce)
               (chat_sessions s @ [new_session ce request u])
             = chat_sessions s @ [touch ce (new_session ce request u)]"
    by (rule update_one_append_fresh) (simp add: new_session_def)
  then show "chat_sessions s' = chat_sessions s @
           [\<lparr>cs_id = uuid_session ce, cs_user_id = u_id u,
             cs_title = session_title (message request),
             cs_created_at = now_session_created ce, cs_updated_at = now_update ce,
             message_count = 2\<rparr>]"
    by (simp add: f(6) sid assms(2) touch_def new_session_def)
qed

text \<open>
  Claim C4. Every chat exchange that succeeds appends the user message and then the
  assistant message, both under the session id it returns; on a session that exists it
  sets \<open>updated_at\<close> to the clock reading taken at the update, the last of the
  exchange, and adds exactly 2 to \<open>message_count\<close>; a session it starts (under an id
  not yet in use) ends the exchange with \<open>message_count\<close> 2. Hence a first message
  without session id followed by a second message under the returned session id leaves the
  session with \<open>message_count\<close> 4, and listing the session's messages as its owner
  returns exactly the four messages of the two exchanges, in ascending order of timestamp.
\<close>

theorem chat_exchange_bookkeeping:
  "(\<forall>s' resp. chat se ce s request u = (s', Inr resp) \<longrightarrow>
       chat_messages s' = chat_messages s @
           [\<lparr>m_id = uuid_user_msg ce, m_session_id = r_session_id resp, m_role = User,
             m_content = message request, m_sources = None, m_timestamp = now_user_msg ce\<rparr>,
            \<lparr>m_id = uuid_assistant_msg ce, m_session_id = r_session_id resp, m_role = Assistant,
             m_content = cm_content (r_message resp), m_sources = Some (r_sources resp),
             m_timestamp = now_assistant_msg ce\<rparr>]
     \<and> (\<forall>c. \<not> starts_session request \<and> session_of s (r_session_id resp) = Some c \<longrightarrow>
            session_of s' (r_session_id resp) =
              Some (c\<lparr>cs_updated_at := now_update ce, message_count := message_count c + 2\<rparr>))
     \<and> (starts_session request \<and> session_of s (uuid_session ce) = None \<longrightarrow>
            session_of s' (r_session_id resp) =
              Some \<lparr>cs_id = uuid_session ce, cs_user_id = u_id u,
                    cs_title = session_title (message request),
                    cs_created_at = now_session_created ce, cs_updated_at = now_update ce,
                    message_count = 2\<rparr>))
   \<and> (\<forall>s1 r1 s2 r2.
         session_id request = None \<and> uuid_session ce \<noteq> []
       \<and> session_of s (uuid_session ce) = None
       \<and> (\<forall>m \<in> set (chat_messages s). m_session_id m \<noteq> uuid_session ce)
       \<and> chat se ce s request u = (s1, Inr r1)
       \<and> session_id request2 = Some (r_session_id r1)
       \<and> chat se2 ce2 s1 request2 u = (s2, Inr r2)
       \<longrightarrow> (\<exists>c. session_of s2 (r_session_id r1) = Some c \<and> message_count c = 4
                 \<and> cs_updated_at c = now_update ce2)
         \<and> (\<exists>msgs. get_session_messages s2 (r_session_id r1) u = Inr msgs
                 \<and> length msgs = 4
                 \<and> sorted (map cm_timestamp msgs)
                 \<and> mset msgs =
                     {#\<lparr>cm_role = User, cm_content = message request, cm_sources = None,
                        cm_timestamp = now_user_msg ce\<rparr>,
                       r_message r1,
                       \<lparr>cm_role = User, cm_content = message request2, cm_sources = None,
                        cm_timestamp = now_user_msg ce2\<rparr>,
                       r_message r2#}))"
proof (intro conjI allI impI; (elim conjE)?)
  fix s' resp assume c: "chat se ce s request u = (s', Inr resp)"
  show "chat_messages s' = chat_messages s @
           [\<lparr>m_id = uuid_user_msg ce, m_session_id = r_session_id resp, m_role = User,
             m_content = message request, m_sources = None, m_timestamp = now_user_msg ce\<rparr>,
            \<lparr>m_id = uuid_assistant_msg ce, m_session_id = r_session_id resp, m_role = Assistant,
             m_content = cm_content (r_message resp), m_sources = Some (r_sources resp),
             m_timestamp = now_assistant_msg ce\<rparr>]"
    by (rule chat_exchange_messages(1)[OF c])
next
  fix s' resp c
  assume "chat se ce s request u = (s', Inr resp)" "\<not> starts_session request"
    "session_of s (r_session_id resp) = Some c"
  then show "session_of s' (r_session_id resp) =
              Some (c\<lparr>cs_updated_at := now_update ce, message_count := message_count c + 2\<rparr>)"
    by (rule chat_existing_session)
next
  fix s' resp
  assume c: "chat se ce s request u = (s', Inr resp)" and st: "starts_session request"
    and fr: "session_of s (uuid_session ce) = None"
  from fr have "\<forall>c \<in> set (chat_sessions s). \<not> cs_id c = uuid_session ce"
    by (simp add: session_of_def find_one_None_iff)
  then show "session_of s' (r_session_id resp) =
              Some \<lparr>cs_id = uuid_session ce, cs_user_id = u_id u,
                    cs_title = session_title (message request),
                    cs_created_at = now_session_created ce, cs_updated_at = now_update ce,
                    message_count = 2\<rparr>"
    unfolding session_of_def chat_started_session[OF c st fr]
    by (intro find_one_append_fresh) simp_all
next
  fix s1 r1 s2 r2
  assume none: "session_id request = None" and ne: "uuid_session ce \<noteq> []"
    and fr: "session_of s (uuid_session ce) = None"
    and frm: "\<forall>m \<in> set (chat_messages s). m_session_id m \<noteq> uuid_session ce"
    and c1: "chat se ce s request u = (s1, Inr r1)"
    and sid2: "session_id request2 = Some (r_session_id r1)"
    and c2: "chat se2 ce2 s1 request2 u = (s2, Inr r2)"
  let ?sid = "uuid_session ce"
  from none have st: "starts_session request" by (simp add: starts_session_def)
  note first = chat_started_session[OF c1 st fr]
  note m1 = chat_exchange_messages[OF c1]
  note m2 = chat_exchange_messages[OF c2]
  from sid2 first(1) have sid2': "session_id request2 = Some ?sid" by simp
  have cont: "chat_sid ce2 request2 = ?sid" "\<not> starts_session request2"
    using chat_sid_given[OF sid2' ne] starts_session_given[OF sid2' ne] by simp_all
  have r2: "r_session_id r2 = ?sid" by (simp add: m2(2) cont)
  from fr have nosess: "\<forall>c \<in> set (chat_sessions s). \<not> cs_id c = ?sid"
    by (simp add: session_of_def find_one_None_iff)
  let ?c1 = "\<lparr>cs_id = ?sid, cs_user_id = u_id u, cs_title = session_title (message request),
              cs_created_at = now_session_created ce, cs_updated_at = now_update ce,
              message_count = 2\<rparr>"
  let ?c2 = "\<lparr>cs_id = ?sid, cs_user_id = u_id u, cs_title = session_title (message request),
              cs_created_at = now_session_created ce, cs_updated_at = now_update ce2,
              message_count = 4\<rparr>"
  have "update_one (\<lambda>c. cs_id c = ?sid) (touch ce2) (chat_sessions s @ [?c1])
          = chat_sessions s @ [touch ce2 ?c1]"
    using nosess by (rule update_one_append_fresh) simp
  then have sess2: "chat_sessions s2 = chat_sessions s @ [?c2]"
    by (simp add: m2(6) cont first(2) touch_def)
  have found: "session_of s2 ?sid = Some ?c2"
    unfolding session_of_def sess2 using nosess by (intro find_one_append_fresh) simp_all
  then show "\<exists>c. session_of s2 (r_session_id r1) = Some c \<and> message_count c = 4
                 \<and> cs_updated_at c = now_update ce2"
    by (simp add: first(1))
  let ?new = "[\<lparr>m_id = uuid_user_msg ce, m_session_id = ?sid, m_role = User,
             m_content = message request, m_sources = None, m_timestamp = now_user_msg ce\<rparr>,
            \<lparr>m_id = uuid_assistant_msg ce, m_session_id = ?sid, m_role = Assistant,
             m_content = cm_content (r_message r1), m_sources = Some (r_sources r1),
             m_timestamp = now_assistant_msg ce\<rparr>,
            \<lparr>m_id = uuid_user_msg ce2, m_session_id = ?sid, m_role = User,
             m_content = message request2, m_sources = None, m_timestamp = now_user_msg ce2\<rparr>,
            \<lparr>m_id = uuid_assistant_msg ce2, m_session_id = ?sid, m_role = Assistant,
             m_content = cm_content (r_message r2), m_sources = Some (r_sources r2),
             m_timestamp = now_assistant_msg ce2\<rparr>]"
  have msgs2: "chat_messages s2 = chat_messages s @ ?new"
    by (simp add: m2(1) m1(1) first(1) r2)
  have listed: "get_session_messages s2 ?sid u =
                  Inr (map to_ChatMessage (take 1000 (sort_key m_timestamp ?new)))"
    by (rule get_session_messages_fresh[OF _ _ _ frm _ sess2 msgs2]) (use nosess in simp_all)
  have a1: "to_ChatMessage \<lparr>m_id = uuid_assistant_msg ce, m_session_id = ?sid, m_role = Assistant,
             m_content = cm_content (r_message r1), m_sources = Some (r_sources r1),
             m_timestamp = now_assistant_msg ce\<rparr> = r_message r1"
    using m1(3,4,5) by (simp add: to_ChatMessage_def)
  have a2: "to_ChatMessage \<lparr>m_id = uuid_assistant_msg ce2, m_session_id = ?sid, m_role = Assistant,
             m_content = cm_content (r_message r2), m_sources = Some (r_sources r2),
             m_timestamp = now_assistant_msg ce2\<rparr> = r_message r2"
    using m2(3,4,5) by (simp add: to_ChatMessage_def)
  have "mset (map to_ChatMessage (take 1000 (sort_key m_timestamp ?new)))
          = mset (map to_ChatMessage ?new)"
    by (rule listed_mset) simp
  also have "\<dots> = {#\<lparr>cm_role = User, cm_content = message request, cm_sources = None,
                        cm_timestamp = now_user_msg ce\<rparr>,
                       r_message r1,
                       \<lparr>cm_role = User, cm_content = message request2, cm_sources = None,
                        cm_timestamp = now_user_msg ce2\<rparr>,
                       r_message r2#}"
    unfolding list.map mset.simps a1 a2 by (simp add: to_ChatMessage_def)
  finally have ms: "mset (map to_ChatMessage (take 1000 (sort_key m_timestamp ?new))) =
      {#\<lparr>cm_role = User, cm_content = message request, cm_sources = None,
                        cm_timestamp = now_user_msg ce\<rparr>,
                       r_message r1,
                       \<lparr>cm_role = User, cm_content = message request2, cm_sources = None,
                        cm_timestamp = now_user_msg ce2\<rparr>,
                       r_message r2#}" .
  have len: "length (map to_ChatMessage (take 1000 (sort_key m_timestamp ?new))) = 4" by simp
  from listed len listed_sorted[of 1000 ?new] ms
  show "\<exists>msgs. get_session_messages s2 (r_session_id r1) u = Inr msgs
                 \<and> length msgs = 4
                 \<and> sorted (map cm_timestamp msgs)
                 \<and> mset msgs =
                     {#\<lparr>cm_role = User, cm_content = message request, cm_sources = None,
                        cm_timestamp = now_user_msg ce\<rparr>,
                       r_message r1,
                       \<lparr>cm_role = User, cm_content = message request2, cm_sources = None,
                        cm_timestamp = now_user_msg ce2\<rparr>,
                       r_message r2#}"
    unfolding first(1)
    by (intro exI[of _ "map to_ChatMessage (take 1000 (sort_key m_timestamp ?new))"] conjI)
qed

lemma load_or_create_store_loaded:
  "vector_store s = Some st \<Longrightarrow> load_or_create_store e s = (s, Inr st)"
  by (simp add: load_or_create_store_def)

lemma chat_retrieved_loaded:
  assumes "vector_store s = Some st" and "search_ok se"
  shows "\<exists>rs. chat_retrieved se s request u = Inr rs"
  using assms
  by (auto simp: chat_retrieved_def search_def load_or_create_store_loaded
           split: option.splits list.splits)

lemma chat_keeps_loaded:
  assumes "vector_store s = Some st"
  shows "vector_store (fst (chat se ce s request u)) = Some st"
proof (cases "snd (chat se ce s request u)")
  case (Inl e)
  have "fst (search se s (message request) 5 (role_doc_types (u_role u))) = s"
    using assms by (simp add: search_fst load_or_create_store_loaded)
  moreover have "fst (chat se ce s request u) =
                   fst (search se s (message request) 5 (role_doc_types (u_role u)))"
    using Inl by (auto simp: chat_def Let_def split: prod.splits sum.splits)
  ultimately show ?thesis using assms by simp
next
  case (Inr resp)
  have s1: "search se s (message request) 5 (role_doc_types (u_role u))
              = (s, snd (search se s (message request) 5 (role_doc_types (u_role u))))"
    using assms search_fst[of se s "message request" 5 "role_doc_types (u_role u)"]
    by (metis load_or_create_store_loaded fst_conv prod.collapse)
  show ?thesis
    using assms
    by (subst chat_def, subst s1)
       (auto simp: resolve_session_def Let_def split: prod.splits sum.splits option.splits)
qed

theorem chat_exchange_bookkeeping_witness:
  "\<exists>s1 r1 s2 r2 c msgs.
      chat ex_env ex_chat_env ex_s2 ex_request (ex_user ''adm'' Admin) = (s1, Inr r1)
    \<and> chat ex_env ex_chat_env2 s1 ex_request2 (ex_user ''adm'' Admin) = (s2, Inr r2)
    \<and> session_of s2 ''s1'' = Some c \<and> message_count c = 4
    \<and> get_session_messages s2 ''s1'' (ex_user ''adm'' Admin) = Inr msgs
    \<and> length msgs = 4 \<and> sorted (map cm_timestamp msgs)"
proof -
  let ?u = "ex_user ''adm'' Admin"
  from chat_succeeds[OF ex_retrieved_admin] obtain s1 r1 where
    c1: "chat ex_env ex_chat_env ex_s2 ex_request ?u = (s1, Inr r1)" by blast
  have "vector_store ex_s2 \<noteq> None" unfolding ex_s2_eq by simp
  then obtain st where "vector_store ex_s2 = Some st" by blast
  from chat_keeps_loaded[OF this, of ex_env ex_chat_env ex_request ?u] c1
  have "vector_store s1 = Some st" by simp
  moreover have "search_ok ex_env" by (simp add: ex_env_def)
  ultimately obtain rs where "chat_retrieved ex_env s1 ex_request2 ?u = Inr rs"
    using chat_retrieved_loaded by blast
  from chat_succeeds[OF this] obtain s2 r2 where
    c2: "chat ex_env ex_chat_env2 s1 ex_request2 ?u = (s2, Inr r2)" by blast
  have sid: "r_session_id r1 = ''s1''"
    using chat_exchange_messages(2)[OF c1] by (simp add: chat_sid_def ex_request_def ex_chat_env_def)
  have pre: "session_id ex_request = None" "uuid_session ex_chat_env \<noteq> []"
    "session_of ex_s2 (uuid_session ex_chat_env) = None"
    "\<forall>m \<in> set (chat_messages ex_s2). m_session_id m \<noteq> uuid_session ex_chat_env"
    "session_id ex_request2 = Some (r_session_id r1)"
    unfolding ex_s2_eq sid
    by (simp_all add: ex_request_def ex_request2_def ex_chat_env_def session_of_def find_one_def)
  from chat_exchange_bookkeeping[where se=ex_env and ce=ex_chat_env and s=ex_s2
         and request=ex_request and u="?u" and ?request2.0=ex_request2 and ?se2.0=ex_env
         and ?ce2.0=ex_chat_env2, THEN conjunct2, rule_format, of s1 r1 s2 r2]
       pre c1 c2
  obtain c msgs where "session_of s2 (r_session_id r1) = Some c" "message_count c = 4"
    "get_session_messages s2 (r_session_id r1) ?u = Inr msgs" "length msgs = 4"
    "sorted (map cm_timestamp msgs)"
    by blast
  with c1 c2 show ?thesis unfolding sid by blast
qed

section \<open>Reading and deleting a session\<close>

lemma delete_one_distinct:
  "distinct (map f xs) \<Longrightarrow> \<forall>x \<in> set (delete_one (\<lambda>x. f x = k) xs). f x \<noteq> k"
  by (induction xs) (auto simp: image_iff)

text \<open>
  Claim C6. Listing the messages of a session or deleting it, when no stored session has
  both the given id and the requester as owner (the session does not exist, or it is
  another user's), fails with 404 "Session not found" and changes nothing; neither
  operation can fail with any other error, so a session that is not the requester's
  cannot be told from one that does not exist. When the requester owns the session,
  deletion succeeds, removes every message of the session and removes one session
  document with that id, which leaves none with that id when session ids are unique.
\<close>

theorem session_access_not_found:
  "((\<forall>c \<in> set (chat_sessions s). cs_id c = sid \<longrightarrow> cs_user_id c \<noteq> u_id u) \<longrightarrow>
       get_session_messages s sid u = Inl (HTTPException 404 ''Session not found'')
     \<and> delete_session s sid u = (s, Inl (HTTPException 404 ''Session not found'')))
   \<and> (\<forall>e. get_session_messages s sid u = Inl e \<or> snd (delete_session s sid u) = Inl e
          \<longrightarrow> e = HTTPException 404 ''Session not found'')
   \<and> ((\<exists>c \<in> set (chat_sessions s). cs_id c = sid \<and> cs_user_id c = u_id u) \<longrightarrow>
         delete_session s sid u =
           (s\<lparr>chat_messages := filter (\<lambda>m. m_session_id m \<noteq> sid) (chat_messages s),
              chat_sessions := delete_one (\<lambda>c. cs_id c = sid) (chat_sessions s)\<rparr>,
            Inr ''Session deleted'')
       \<and> (\<forall>m \<in> set (chat_messages (fst (delete_session s sid u))). m_session_id m \<noteq> sid)
       \<and> length (chat_sessions (fst (delete_session s sid u))) + 1 = length (chat_sessions s)
       \<and> (distinct (map cs_id (chat_sessions s)) \<longrightarrow>
             (\<forall>c \<in> set (chat_sessions (fst (delete_session s sid u))). cs_id c \<noteq> sid)))"
proof (intro conjI allI impI)
  assume "\<forall>c \<in> set (chat_sessions s). cs_id c = sid \<longrightarrow> cs_user_id c \<noteq> u_id u"
  then have none: "find_one (\<lambda>c. cs_id c = sid \<and> cs_user_id c = u_id u) (chat_sessions s) = None"
    by (auto simp: find_one_None_iff)
  show "get_session_messages s sid u = Inl (HTTPException 404 ''Session not found'')"
    by (simp add: get_session_messages_def none)
  show "delete_session s sid u = (s, Inl (HTTPException 404 ''Session not found''))"
    by (simp add: delete_session_def none)
next
  fix e
  assume "get_session_messages s sid u = Inl e \<or> snd (delete_session s sid u) = Inl e"
  then show "e = HTTPException 404 ''Session not found''"
    by (auto simp: get_session_messages_def delete_session_def Let_def split: option.splits)
next
  assume own: "\<exists>c \<in> set (chat_sessions s). cs_id c = sid \<and> cs_user_id c = u_id u"
  then have "find_one (\<lambda>c. cs_id c = sid \<and> cs_user_id c = u_id u) (chat_sessions s) \<noteq> None"
    by (auto simp: find_one_None_iff)
  then obtain c where "find_one (\<lambda>c. cs_id c = sid \<and> cs_user_id c = u_id u) (chat_sessions s) = Some c"
    by blast
  then show del: "delete_session s sid u =
           (s\<lparr>chat_messages := filter (\<lambda>m. m_session_id m \<noteq> sid) (chat_messages s),
              chat_sessions := delete_one (\<lambda>c. cs_id c = sid) (chat_sessions s)\<rparr>,
            Inr ''Session deleted'')"
    by (simp add: delete_session_def delete_many_def Let_def)
  show "\<forall>m \<in> set (chat_messages (fst (delete_session s sid u))). m_session_id m \<noteq> sid"
    by (simp add: del)
  have "\<exists>c \<in> set xs. cs_id c = sid \<Longrightarrow>
          length (delete_one (\<lambda>c. cs_id c = sid) xs) + 1 = length xs" for xs :: "chat_session list"
    by (induction xs) auto
  with own show "length (chat_sessions (fst (delete_session s sid u))) + 1 = length (chat_sessions s)"
    by (auto simp: del)
  {
    assume "distinct (map cs_id (chat_sessions s))"
    from delete_one_distinct[OF this, of sid]
    show "\<forall>c \<in> set (chat_sessions (fst (delete_session s sid u))). cs_id c \<noteq> sid"
      by (simp add: del)
  }
qed

lemma ex_s3_sessions:
  "chat_sessions ex_s3 = [\<lparr>cs_id = ''s1'', cs_user_id = ''adm'', cs_title = ''gloves'',
                              cs_created_at = ''2024-01-02T00:00:00+00:00'',
                              cs_updated_at = ''2024-01-02T00:00:01.000001+00:00'',
                              message_count = 2\<rparr>]"
  "map m_session_id (chat_messages ex_s3) = [''s1'', ''s1'']"
  by (simp_all add: ex_s3_def)

theorem session_access_not_found_witness:
  "get_session_messages ex_s3 ''s1'' (ex_user ''tech'' Technician)
     = Inl (HTTPException 404 ''Session not found'')
   \<and> get_session_messages ex_s3 ''s0'' (ex_user ''tech'' Technician)
     = Inl (HTTPException 404 ''Session not found'')
   \<and> delete_session ex_s3 ''s1'' (ex_user ''tech'' Technician)
     = (ex_s3, Inl (HTTPException 404 ''Session not found''))
   \<and> chat_messages (fst (delete_session ex_s3 ''s1'' (ex_user ''adm'' Admin))) = []
   \<and> chat_sessions (fst (delete_session ex_s3 ''s1'' (ex_user ''adm'' Admin))) = []"
proof -
  have other: "\<forall>c \<in> set (chat_sessions ex_s3).
                 cs_id c = ''s1'' \<longrightarrow> cs_user_id c \<noteq> u_id (ex_user ''tech'' Technician)"
    by (simp add: ex_s3_sessions ex_user_def)
  have absent: "\<forall>c \<in> set (chat_sessions ex_s3).
                 cs_id c = ''s0'' \<longrightarrow> cs_user_id c \<noteq> u_id (ex_user ''tech'' Technician)"
    by (simp add: ex_s3_sessions)
  have own: "\<exists>c \<in> set (chat_sessions ex_s3).
                 cs_id c = ''s1'' \<and> cs_user_id c = u_id (ex_user ''adm'' Admin)"
    by (simp add: ex_s3_sessions ex_user_def)
  note a = session_access_not_found[of ex_s3 "''s1''" "ex_user ''tech'' Technician",
             THEN conjunct1, THEN mp, OF other]
  note b = session_access_not_found[of ex_s3 "''s0''" "ex_user ''tech'' Technician",
             THEN conjunct1, THEN mp, OF absent]
  note c = session_access_not_found[of ex_s3 "''s1''" "ex_user ''adm'' Admin",
             THEN conjunct2, THEN conjunct2, THEN mp, OF own]
  have m: "chat_messages (fst (delete_session ex_s3 ''s1'' (ex_user ''adm'' Admin))) = []"
    unfolding c[THEN conjunct1] by (simp add: ex_s3_def)
  have d: "chat_sessions (fst (delete_session ex_s3 ''s1'' (ex_user ''adm'' Admin))) = []"
    unfolding c[THEN conjunct1] by (simp add: ex_s3_sessions)
  from a b m d show ?thesis by simp
qed

section \<open>Registration\<close>

text \<open>
  Claim C9. Registration takes the request body and no caller identity. When the email is
  not yet registered it succeeds, and the stored user, the response and the issued token
  carry the role of the request: the role supplied, whichever of the four it is, or
  \<open>viewer\<close> when none is supplied. The only failure is 400 for an email already
  registered. In particular, in the initial state, where no user exists and so no caller
  can be authenticated, a request with role \<open>admin\<close> creates an active admin account.
\<close>

theorem register_role_as_requested:
  "(find_one (\<lambda>x. u_email x = uc_email user) (users s) = None \<longrightarrow>
      (\<exists>s' tok. register re s user = (s', Inr tok)
         \<and> ur_role (token_user tok) = UserCreate_role user
         \<and> access_token tok = create_token re (uuid_user re) (uc_email user) (UserCreate_role user)
         \<and> users s' = users s @
              [\<lparr>u_id = uuid_user re, u_email = uc_email user, u_name = uc_name user,
                u_role = UserCreate_role user,
                u_password_hash = hash_password re (uc_password user),
                u_created_at = now_registered re, u_is_active = True\<rparr>]))
   \<and> (uc_role user = None \<longrightarrow> UserCreate_role user = Viewer)
   \<and> (\<forall>r. uc_role user = Some r \<longrightarrow> UserCreate_role user = r)
   \<and> (\<forall>e. snd (register re s user) = Inl e \<longrightarrow>
          e = HTTPException 400 ''Email already registered'')
   \<and> (uc_role user = Some Admin \<longrightarrow>
         (\<exists>tok. register re (initial_state :: 'f state) user
                  = (initial_state\<lparr>users :=
                       [\<lparr>u_id = uuid_user re, u_email = uc_email user, u_name = uc_name user,
                         u_role = Admin,
                         u_password_hash = hash_password re (uc_password user),
                         u_created_at = now_registered re, u_is_active = True\<rparr>]\<rparr>, Inr tok)
               \<and> ur_role (token_user tok) = Admin))"
  by (auto simp: register_def UserCreate_role_def Let_def initial_state_def find_one_def
           split: option.splits)

theorem register_role_as_requested_witness:
  "\<exists>tok. register ex_register_env (initial_state :: rat state) ex_signup
            = (initial_state\<lparr>users :=
                 [\<lparr>u_id = ''u9'', u_email = ''mallory@x.com'', u_name = ''Mallory'',
                   u_role = Admin, u_password_hash = ''bcrypt:pw1'',
                   u_created_at = ''2024-01-03T00:00:00+00:00'', u_is_active = True\<rparr>]\<rparr>, Inr tok)
         \<and> ur_role (token_user tok) = Admin"
proof -
  have "uc_role ex_signup = Some Admin" by (simp add: ex_signup_def)
  from register_role_as_requested[where user=ex_signup and re=ex_register_env
         and s="initial_state :: rat state",
         THEN conjunct2, THEN conjunct2, THEN conjunct2, THEN conjunct2, THEN mp, OF this]
  show ?thesis by (simp add: ex_signup_def ex_register_env_def)
qed

section \<open>Upload and failure\<close>

lemma add_document_ok:
  assumes "add_document e s i t c ty = (s1, Inr n)"
  shows "n = length (split_text e c)"
    and "\<exists>st. vector_store s1 = Some (st @ chunk_documents i t ty (split_text e c))
            \<and> faiss_index s1 = Some (st @ chunk_documents i t ty (split_text e c))"
    and "documents s1 = documents s"
proof -
  obtain s0 r where l: "load_or_create_store e s = (s0, r)" by (cases "load_or_create_store e s")
  show "documents s1 = documents s" using add_document_documents[of e s i t c ty] assms by simp
  show "n = length (split_text e c)"
    using assms l by (cases r) (auto simp: add_document_def Let_def split: if_splits)
  show "\<exists>st. vector_store s1 = Some (st @ chunk_documents i t ty (split_text e c))
            \<and> faiss_index s1 = Some (st @ chunk_documents i t ty (split_text e c))"
    using assms l by (cases r) (auto simp: add_document_def Let_def split: if_splits)
qed

lemma upload_document_outcome:
  obtains (rejected) e where
      "upload_document se ue s filename content title description doc_type u = (s, Inl e)"
      "check_permission u ''upload_docs'' \<noteq> None \<or> upload_ext ue filename \<notin> set allowed_extensions
       \<or> extract_text ue (upload_ext ue filename) content = None
       \<or> (\<exists>t. extract_text ue (upload_ext ue filename) content = Some t \<and> strip t = [])"
  | (index_failed) t s1 e where
      "extract_text ue (upload_ext ue filename) content = Some t" "strip t \<noteq> []"
      "add_document se s (uuid_doc ue) (upload_title ue title filename) t doc_type = (s1, Inl e)"
      "upload_document se ue s filename content title description doc_type u = (s1, Inl e)"
  | (store_failed) t s1 n s' where
      "extract_text ue (upload_ext ue filename) content = Some t" "strip t \<noteq> []"
      "add_document se s (uuid_doc ue) (upload_title ue title filename) t doc_type = (s1, Inr n)"
      "\<not> file_write_ok ue \<or> \<not> insert_ok ue"
      "upload_document se ue s filename content title description doc_type u = (s', Inl Unhandled)"
      "documents s' = documents s1" "vector_store s' = vector_store s1"
      "faiss_index s' = faiss_index s1"
  | (recorded) t s1 n doc_record where
      "check_permission u ''upload_docs'' = None"
      "extract_text ue (upload_ext ue filename) content = Some t" "strip t \<noteq> []"
      "add_document se s (uuid_doc ue) (upload_title ue title filename) t doc_type = (s1, Inr n)"
      "doc_record = \<lparr>d_id = uuid_doc ue, d_title = upload_title ue title filename,
                      d_description = description, d_doc_type = doc_type,
                      d_filename = filename,
                      d_file_path = uploads_path ue @ ''/'' @ uuid_doc ue @ upload_ext ue filename,
                      d_uploaded_by = u_id u, d_uploaded_by_name = u_name u,
                      d_created_at = now_created ue,
                      d_chunk_count = n, d_file_size = length content\<rparr>"
      "upload_document se ue s filename content title description doc_type u =
         (s1\<lparr>uploads := uploads s1 @ [(d_file_path doc_record, content)],
             documents := documents s1 @ [doc_record]\<rparr>, DocumentResponse_of doc_record)"
proof (cases "check_permission u ''upload_docs''")
  case (Some err)
  then have "upload_document se ue s filename content title description doc_type u = (s, Inl err)"
    by (simp add: upload_document_def)
  with Some show ?thesis by (intro rejected[of err]) simp_all
next
  case perm: None
  let ?ext = "upload_ext ue filename"
  show ?thesis
  proof (cases "?ext \<in> set allowed_extensions")
    case False
    with perm have "\<exists>e. upload_document se ue s filename content title description doc_type u = (s, Inl e)"
      by (simp add: upload_document_def upload_ext_def)
    with False show ?thesis using rejected by blast
  next
    case ext: True
    show ?thesis
    proof (cases "extract_text ue ?ext content")
      case None
      with perm ext
      have "\<exists>e. upload_document se ue s filename content title description doc_type u = (s, Inl e)"
        by (simp add: upload_document_def upload_ext_def)
      with None show ?thesis using rejected by blast
    next
      case extracted: (Some t)
      show ?thesis
      proof (cases "strip t = []")
        case True
        with perm ext extracted
        have "\<exists>e. upload_document se ue s filename content title description doc_type u = (s, Inl e)"
          by (simp add: upload_document_def upload_ext_def)
        with True extracted show ?thesis using rejected by blast
      next
        case nonempty: False
        obtain s1 r where
          add: "add_document se s (uuid_doc ue) (upload_title ue title filename) t doc_type = (s1, r)"
          by (cases "add_document se s (uuid_doc ue) (upload_title ue title filename) t doc_type")
        show ?thesis
        proof (cases r)
          case (Inl err)
          with perm ext extracted nonempty add
          have "upload_document se ue s filename content title description doc_type u = (s1, Inl err)"
            by (simp add: upload_document_def upload_ext_def upload_title_def Let_def)
          with extracted nonempty add Inl show ?thesis by (intro index_failed[of t s1 err]) simp_all
        next
          case (Inr n)
          show ?thesis
          proof (cases "file_write_ok ue")
            case False
            with perm ext extracted nonempty add Inr
            have "upload_document se ue s filename content title description doc_type u
                    = (s1, Inl Unhandled)"
              by (simp add: upload_document_def upload_ext_def upload_title_def Let_def)
            with extracted nonempty add Inr False show ?thesis
              by (intro store_failed[of t s1 n s1]) simp_all
          next
            case fw: True
            show ?thesis
            proof (cases "insert_ok ue")
              case False
              with perm ext extracted nonempty add Inr fw
              have "upload_document se ue s filename content title description doc_type u
                      = (s1\<lparr>uploads := uploads s1 @
                             [(uploads_path ue @ ''/'' @ uuid_doc ue @ ?ext, content)]\<rparr>,
                         Inl Unhandled)"
                by (simp add: upload_document_def upload_ext_def upload_title_def Let_def)
              with extracted nonempty add Inr False show ?thesis
                by (intro store_failed[of t s1 n "s1\<lparr>uploads := uploads s1 @
                             [(uploads_path ue @ ''/'' @ uuid_doc ue @ ?ext, content)]\<rparr>"]) simp_all
            next
              case True
              let ?rec = "\<lparr>d_id = uuid_doc ue, d_title = upload_title ue title filename,
                      d_description = description, d_doc_type = doc_type,
                      d_filename = filename,
                      d_file_path = uploads_path ue @ ''/'' @ uuid_doc ue @ upload_ext ue filename,
                      d_uploaded_by = u_id u, d_uploaded_by_name = u_name u,
                      d_created_at = now_created ue,
                      d_chunk_count = n, d_file_size = length content\<rparr>"
              from perm ext extracted nonempty add Inr fw True
              have "upload_document se ue s filename content title description doc_type u =
                      (s1\<lparr>uploads := uploads s1 @ [(d_file_path ?rec, content)],
                          documents := documents s1 @ [?rec]\<rparr>, DocumentResponse_of ?rec)"
                by (simp add: upload_document_def upload_ext_def upload_title_def Let_def)
              with perm extracted nonempty add Inr show ?thesis
                by (intro recorded[of t s1 n ?rec]) simp_all
            qed
          qed
        qed
      qed
    qed
  qed
qed

text \<open>
  Claim C2. An upload whose text extraction raises, or whose extracted text is empty after
  stripping whitespace, is rejected with the whole state, index included, exactly as it
  was. An upload whose \<open>add_document\<close> fails (loading the index, adding the chunks or
  saving the index) fails too and leaves the document collection as it was. Whatever the
  upload returns, when it has changed the document collection it has appended the one new
  record, and all chunks of that document, as many as the record's \<open>chunk_count\<close>, are
  in the cached index and in the saved index: no record exists whose chunks were not
  indexed. The upload can still fail after the record is inserted, when building the
  response rejects a \<open>doc_type\<close> that is not one of the four literals; for a
  \<open>doc_type\<close> that is one of them every failed upload leaves the document collection
  as it was.
\<close>

theorem upload_failure_atomic:
  "(extract_text ue (upload_ext ue filename) content = None
      \<or> (\<exists>t. extract_text ue (upload_ext ue filename) content = Some t \<and> strip t = [])
     \<longrightarrow> (\<exists>e. upload_document se ue s filename content title description doc_type u = (s, Inl e)))
   \<and> (\<forall>t s1 e. extract_text ue (upload_ext ue filename) content = Some t
         \<and> add_document se s (uuid_doc ue) (upload_title ue title filename) t doc_type = (s1, Inl e)
       \<longrightarrow> (\<exists>e'. snd (upload_document se ue s filename content title description doc_type u) = Inl e')
         \<and> documents (fst (upload_document se ue s filename content title description doc_type u))
             = documents s)
   \<and> (documents (fst (upload_document se ue s filename content title description doc_type u))
         \<noteq> documents s \<longrightarrow>
        (\<exists>doc_record t st.
            documents (fst (upload_document se ue s filename content title description doc_type u))
              = documents s @ [doc_record]
          \<and> d_id doc_record = uuid_doc ue
          \<and> d_doc_type doc_record = doc_type
          \<and> extract_text ue (upload_ext ue filename) content = Some t
          \<and> d_chunk_count doc_record = length (split_text se t)
          \<and> vector_store (fst (upload_document se ue s filename content title description doc_type u))
              = Some (st @ chunk_documents (uuid_doc ue) (d_title doc_record) doc_type (split_text se t))
          \<and> faiss_index (fst (upload_document se ue s filename content title description doc_type u))
              = Some (st @ chunk_documents (uuid_doc ue) (d_title doc_record) doc_type (split_text se t))
          \<and> snd (upload_document se ue s filename content title description doc_type u)
              = DocumentResponse_of doc_record))
   \<and> (\<forall>e. snd (upload_document se ue s filename content title description doc_type u) = Inl e
         \<and> doc_type \<in> set DocumentBase_doc_types
         \<longrightarrow> documents (fst (upload_document se ue s filename content title description doc_type u))
               = documents s)"
proof (cases rule: upload_document_outcome[of se ue s filename content title description doc_type u])
  case (rejected e)
  then show ?thesis by auto
next
  case (index_failed t s1 e)
  from add_document_documents[of se s "uuid_doc ue" "upload_title ue title filename" t doc_type]
    index_failed(3)
  have "documents s1 = documents s" by simp
  with index_failed show ?thesis by auto
next
  case (store_failed t s1 n s')
  from add_document_ok(3)[OF store_failed(3)] have "documents s1 = documents s" .
  with store_failed show ?thesis by auto
next
  case (recorded t s1 n doc_record)
  note ok = add_document_ok[OF recorded(4)]
  from ok(2) obtain st where
    st: "vector_store s1 = Some (st @ chunk_documents (uuid_doc ue) (upload_title ue title filename)
                                       doc_type (split_text se t))"
        "faiss_index s1 = Some (st @ chunk_documents (uuid_doc ue) (upload_title ue title filename)
                                       doc_type (split_text se t))"
    by blast
  let ?up = "upload_document se ue s filename content title description doc_type u"
  have fst_up: "fst ?up = s1\<lparr>uploads := uploads s1 @ [(d_file_path doc_record, content)],
                             documents := documents s1 @ [doc_record]\<rparr>"
    and snd_up: "snd ?up = DocumentResponse_of doc_record"
    by (simp_all add: recorded(6))
  have ty: "d_doc_type doc_record = doc_type" by (simp add: recorded(5))
  have indexed: "\<exists>doc_record t st.
            documents (fst ?up) = documents s @ [doc_record]
          \<and> d_id doc_record = uuid_doc ue
          \<and> d_doc_type doc_record = doc_type
          \<and> extract_text ue (upload_ext ue filename) content = Some t
          \<and> d_chunk_count doc_record = length (split_text se t)
          \<and> vector_store (fst ?up)
              = Some (st @ chunk_documents (uuid_doc ue) (d_title doc_record) doc_type (split_text se t))
          \<and> faiss_index (fst ?up)
              = Some (st @ chunk_documents (uuid_doc ue) (d_title doc_record) doc_type (split_text se t))
          \<and> snd ?up = DocumentResponse_of doc_record"
    apply (rule exI[of _ doc_record], rule exI[of _ t], rule exI[of _ st])
    apply (simp add: fst_up snd_up ok st recorded(2))
    apply (simp add: recorded(5) ok(1))
    done
  have a: "\<not> (extract_text ue (upload_ext ue filename) content = None
      \<or> (\<exists>t. extract_text ue (upload_ext ue filename) content = Some t \<and> strip t = []))"
    using recorded(2,3) by auto
  have b: "\<forall>t s1 e. \<not> (extract_text ue (upload_ext ue filename) content = Some t
         \<and> add_document se s (uuid_doc ue) (upload_title ue title filename) t doc_type = (s1, Inl e))"
    using recorded(2,4) by auto
  have c: "\<forall>e. \<not> (snd ?up = Inl e \<and> doc_type \<in> set DocumentBase_doc_types)"
    by (simp add: snd_up DocumentResponse_of_def ty)
  from a b c indexed show ?thesis by blast
qed

lemma ex_upload_save_fails:
  "snd (upload_document ex_env_save_fails (ex_upload_env ''d3'') ex_s2 ''new.txt'' ''new text''
          ''New'' '''' ''sop'' (ex_user ''eng'' Engineer)) = Inl Unhandled"
  unfolding ex_s2_eq
  by (simp add: upload_document_def add_document_def load_or_create_store_def
        check_permission_def extract_text_def allowed_extensions_def ex_env_save_fails_def
        strip_def isspace_def Let_def ex_defs)

lemma ex_upload_unknown_type:
  "snd (upload_document ex_env (ex_upload_env ''d3'') ex_s2 ''plan.txt'' ''plan text''
          ''Plan'' '''' ''secret'' (ex_user ''eng'' Engineer)) = Inl Unhandled"
  "map d_id (documents (fst (upload_document ex_env (ex_upload_env ''d3'') ex_s2 ''plan.txt''
          ''plan text'' ''Plan'' '''' ''secret'' (ex_user ''eng'' Engineer)))) = [''d1'', ''d2'', ''d3'']"
  unfolding ex_s2_eq
  by (simp_all add: upload_document_def add_document_def load_or_create_store_def
        check_permission_def extract_text_def allowed_extensions_def DocumentResponse_of_def
        DocumentBase_doc_types_def strip_def isspace_def Let_def ex_defs)

theorem upload_failure_atomic_witness:
  "(\<exists>e. upload_document ex_env (ex_upload_env ''d3'') ex_s2 ''blank.txt'' ''   ''
           ''Blank'' '''' ''sop'' (ex_user ''eng'' Engineer) = (ex_s2, Inl e))
   \<and> snd (upload_document ex_env_save_fails (ex_upload_env ''d3'') ex_s2 ''new.txt'' ''new text''
            ''New'' '''' ''sop'' (ex_user ''eng'' Engineer)) = Inl Unhandled
   \<and> documents (fst (upload_document ex_env_save_fails (ex_upload_env ''d3'') ex_s2 ''new.txt''
                        ''new text'' ''New'' '''' ''sop'' (ex_user ''eng'' Engineer)))
       = documents ex_s2
   \<and> snd (upload_document ex_env (ex_upload_env ''d3'') ex_s2 ''plan.txt'' ''plan text''
            ''Plan'' '''' ''secret'' (ex_user ''eng'' Engineer)) = Inl Unhandled
   \<and> (\<exists>doc_record st.
          documents (fst (upload_document ex_env (ex_upload_env ''d3'') ex_s2 ''plan.txt''
                            ''plan text'' ''Plan'' '''' ''secret'' (ex_user ''eng'' Engineer)))
            = documents ex_s2 @ [doc_record]
        \<and> d_chunk_count doc_record = 1
        \<and> faiss_index (fst (upload_document ex_env (ex_upload_env ''d3'') ex_s2 ''plan.txt''
                            ''plan text'' ''Plan'' '''' ''secret'' (ex_user ''eng'' Engineer)))
            = Some (st @ chunk_documents ''d3'' (d_title doc_record) ''secret'' [''plan text'']))"
proof -
  have blank: "extract_text (ex_upload_env ''d3'') (upload_ext (ex_upload_env ''d3'') ''blank.txt'') ''   ''
                 = None
     \<or> (\<exists>t. extract_text (ex_upload_env ''d3'') (upload_ext (ex_upload_env ''d3'') ''blank.txt'') ''   ''
                 = Some t \<and> strip t = [])"
    by (simp add: extract_text_def upload_ext_def ex_upload_env_def strip_def isspace_def)
  note a = upload_failure_atomic[where se=ex_env and ue="ex_upload_env ''d3''" and s=ex_s2
      and filename="''blank.txt''" and content="''   ''" and title="''Blank''"
      and description="''''" and doc_type="''sop''" and u="ex_user ''eng'' Engineer",
      THEN conjunct1, THEN mp, OF blank]
  have lit: "snd (upload_document ex_env_save_fails (ex_upload_env ''d3'') ex_s2 ''new.txt''
                    ''new text'' ''New'' '''' ''sop'' (ex_user ''eng'' Engineer)) = Inl Unhandled
             \<and> ''sop'' \<in> set DocumentBase_doc_types"
    using ex_upload_save_fails by (simp add: DocumentBase_doc_types_def)
  note b = upload_failure_atomic[where se=ex_env_save_fails and ue="ex_upload_env ''d3''"
      and s=ex_s2 and filename="''new.txt''" and content="''new text''" and title="''New''"
      and description="''''" and doc_type="''sop''" and u="ex_user ''eng'' Engineer",
      THEN conjunct2, THEN conjunct2, THEN conjunct2, THEN spec, THEN mp, OF lit]
  have grown: "documents (fst (upload_document ex_env (ex_upload_env ''d3'') ex_s2 ''plan.txt''
                            ''plan text'' ''Plan'' '''' ''secret'' (ex_user ''eng'' Engineer)))
                 \<noteq> documents ex_s2"
  proof
    assume "documents (fst (upload_document ex_env (ex_upload_env ''d3'') ex_s2 ''plan.txt''
                            ''plan text'' ''Plan'' '''' ''secret'' (ex_user ''eng'' Engineer)))
                 = documents ex_s2"
    then have "map d_id (documents (fst (upload_document ex_env (ex_upload_env ''d3'') ex_s2
                   ''plan.txt'' ''plan text'' ''Plan'' '''' ''secret'' (ex_user ''eng'' Engineer))))
                 = map d_id (documents ex_s2)" by simp
    then show False unfolding ex_upload_unknown_type(2) unfolding ex_s2_eq by simp
  qed
  from upload_failure_atomic[where se=ex_env and ue="ex_upload_env ''d3''"
      and s=ex_s2 and filename="''plan.txt''" and content="''plan text''" and title="''Plan''"
      and description="''''" and doc_type="''secret''" and u="ex_user ''eng'' Engineer",
      THEN conjunct2, THEN conjunct2, THEN conjunct1, THEN mp, OF grown]
  obtain doc_record t st where
    d: "documents (fst (upload_document ex_env (ex_upload_env ''d3'') ex_s2 ''plan.txt''
                            ''plan text'' ''Plan'' '''' ''secret'' (ex_user ''eng'' Engineer)))
            = documents ex_s2 @ [doc_record]"
    and t: "extract_text (ex_upload_env ''d3'') (upload_ext (ex_upload_env ''d3'') ''plan.txt'')
              ''plan text'' = Some t"
    and n: "d_chunk_count doc_record = length (split_text ex_env t)"
    and f: "faiss_index (fst (upload_document ex_env (ex_upload_env ''d3'') ex_s2 ''plan.txt''
                            ''plan text'' ''Plan'' '''' ''secret'' (ex_user ''eng'' Engineer)))
            = Some (st @ chunk_documents (uuid_doc (ex_upload_env ''d3'')) (d_title doc_record)
                           ''secret'' (split_text ex_env t))"
    by blast
  from t have t': "t = ''plan text''"
    by (simp add: extract_text_def upload_ext_def ex_upload_env_def)
  have n': "d_chunk_count doc_record = 1" using n by (simp add: t' ex_env_def)
  have f': "faiss_index (fst (upload_document ex_env (ex_upload_env ''d3'') ex_s2 ''plan.txt''
                            ''plan text'' ''Plan'' '''' ''secret'' (ex_user ''eng'' Engineer)))
            = Some (st @ chunk_documents ''d3'' (d_title doc_record) ''secret'' [''plan text''])"
    using f by (simp add: t' ex_env_def ex_upload_env_def)
  from d n' f' have last: "\<exists>doc_record st.
          documents (fst (upload_document ex_env (ex_upload_env ''d3'') ex_s2 ''plan.txt''
                            ''plan text'' ''Plan'' '''' ''secret'' (ex_user ''eng'' Engineer)))
            = documents ex_s2 @ [doc_record]
        \<and> d_chunk_count doc_record = 1
        \<and> faiss_index (fst (upload_document ex_env (ex_upload_env ''d3'') ex_s2 ''plan.txt''
                            ''plan text'' ''Plan'' '''' ''secret'' (ex_user ''eng'' Engineer)))
            = Some (st @ chunk_documents ''d3'' (d_title doc_record) ''secret'' [''plan text''])"
    by (intro exI[of _ doc_record] exI[of _ st] conjI)
  from a ex_upload_save_fails b ex_upload_unknown_type(1) last show ?thesis by (intro conjI)
qed

section \<open>The relevance score in floating point\<close>

lemma round_half_even_of_int: "round_half_even (of_int n) = n"
  by (simp add: round_half_even_def)

lemma round_half_even_bounds:
  "\<lfloor>x\<rfloor> \<le> round_half_even x" "round_half_even x \<le> \<lfloor>x\<rfloor> + 1"
  by (simp_all add: round_half_even_def Let_def)

lemma round_half_even_mono:
  assumes "x \<le> y"
  shows "round_half_even x \<le> round_half_even y"
proof (cases "\<lfloor>x\<rfloor> = \<lfloor>y\<rfloor>")
  case True
  with assms show ?thesis by (auto simp: round_half_even_def Let_def)
next
  case False
  with assms have "\<lfloor>x\<rfloor> + 1 \<le> \<lfloor>y\<rfloor>" using floor_mono[OF assms] by linarith
  with round_half_even_bounds(2)[of x] round_half_even_bounds(1)[of y] show ?thesis by linarith
qed

lemma round_half_even_ge: "of_int n \<le> x \<Longrightarrow> n \<le> round_half_even x"
  using round_half_even_mono[of "of_int n" x] by (simp add: round_half_even_of_int)

lemma round_half_even_le: "x \<le> of_int n \<Longrightarrow> round_half_even x \<le> n"
  using round_half_even_mono[of x "of_int n"] by (simp add: round_half_even_of_int)

lemma exponent_bounds:
  assumes "0 < x"
  shows "2 powr of_int \<lfloor>log 2 x\<rfloor> \<le> x" "x < 2 powr of_int (\<lfloor>log 2 x\<rfloor> + 1)"
proof -
  have "of_int \<lfloor>log 2 x\<rfloor> \<le> log 2 x" by simp
  then have "2 powr of_int \<lfloor>log 2 x\<rfloor> \<le> 2 powr log 2 x" by simp
  then show "2 powr of_int \<lfloor>log 2 x\<rfloor> \<le> x" using assms by simp
  have "log 2 x < of_int (\<lfloor>log 2 x\<rfloor> + 1)" by linarith
  then have "2 powr log 2 x < 2 powr of_int (\<lfloor>log 2 x\<rfloor> + 1)" by simp
  then show "x < 2 powr of_int (\<lfloor>log 2 x\<rfloor> + 1)" using assms by simp
qed

lemma float_round_pos_bounds:
  assumes "0 < x" and "0 < p"
  shows "2 powr of_int \<lfloor>log 2 x\<rfloor> \<le> float_round p x"
    and "float_round p x \<le> 2 powr of_int (\<lfloor>log 2 x\<rfloor> + 1)"
proof -
  define k where "k = \<lfloor>log 2 x\<rfloor>"
  define e where "e = k - int p + 1"
  define m where "m = x / 2 powr of_int e"
  have fr: "float_round p x = of_int (round_half_even m) * 2 powr of_int e"
    using assms(1) by (simp add: float_round_def k_def e_def m_def Let_def)
  have pe: "0 < 2 powr (of_int e :: real)" by simp
  have ke: "k = e + (int p - 1)" by (simp add: e_def)
  have pow: "2 powr (of_int (int p - 1) :: real) = of_int (2 ^ (p - 1))"
    using assms(2) by (simp add: powr_realpow[symmetric] of_nat_diff)
  have pow': "2 powr (of_int (int p) :: real) = of_int (2 ^ p)"
    by (simp add: powr_realpow[symmetric])
  have lo: "2 powr of_int k = of_int (2 ^ (p - 1)) * 2 powr (of_int e :: real)"
    unfolding ke by (simp only: of_int_add powr_add pow) (simp add: mult.commute)
  have hi: "2 powr of_int (k + 1) = of_int (2 ^ p) * 2 powr (of_int e :: real)"
  proof -
    have "k + 1 = e + int p" by (simp add: e_def)
    then show ?thesis by (simp only: of_int_add powr_add pow') (simp add: mult.commute)
  qed
  from exponent_bounds[OF assms(1)] have x: "2 powr of_int k \<le> x" "x < 2 powr of_int (k + 1)"
    by (simp_all add: k_def)
  have "of_int (2 ^ (p - 1)) \<le> m"
    using x(1) pe unfolding m_def lo by (simp add: pos_le_divide_eq)
  then have a: "(2 ^ (p - 1) :: int) \<le> round_half_even m" by (rule round_half_even_ge)
  have "m \<le> of_int (2 ^ p)"
    using x(2) pe unfolding m_def hi by (simp add: pos_divide_le_eq)
  then have b: "round_half_even m \<le> (2 ^ p :: int)" by (rule round_half_even_le)
  from a have "of_int (2 ^ (p - 1)) * 2 powr of_int e \<le> of_int (round_half_even m) * 2 powr (of_int e :: real)"
    using pe by (simp only: mult_le_cancel_right_pos of_int_le_iff)
  then show "2 powr of_int \<lfloor>log 2 x\<rfloor> \<le> float_round p x"
    unfolding fr lo[symmetric] by (simp add: k_def)
  from b have "of_int (round_half_even m) * 2 powr (of_int e :: real) \<le> of_int (2 ^ p) * 2 powr of_int e"
    using pe by (simp only: mult_le_cancel_right_pos of_int_le_iff)
  then show "float_round p x \<le> 2 powr of_int (\<lfloor>log 2 x\<rfloor> + 1)"
    unfolding fr hi[symmetric] by (simp add: k_def)
qed

lemma float_round_near_one:
  assumes "0 \<le> t" and "t * 2 ^ (p - 1) < 1 / 2" and "0 < p"
  shows "float_round p (1 + t) = 1"
proof -
  have pw: "(2 :: real) ^ (p - 1) \<ge> 1" by simp
  have t1: "t < 1"
  proof (rule ccontr)
    assume "\<not> t < 1"
    then have "1 \<le> t" by simp
    then have "1 * 1 \<le> t * 2 ^ (p - 1)" using pw by (intro mult_mono) simp_all
    with assms(2) show False by simp
  qed
  have k: "\<lfloor>log 2 (1 + t)\<rfloor> = 0"
  proof (rule floor_unique)
    show "of_int 0 \<le> log 2 (1 + t)" using assms(1) by simp
    have "log 2 (1 + t) < log 2 2" using assms(1) t1 by simp
    then show "log 2 (1 + t) < of_int 0 + 1" by simp
  qed
  have pow: "2 powr (of_int (int p - 1) :: real) = 2 ^ (p - 1)"
    using assms(3) by (simp add: powr_realpow[symmetric] of_nat_diff)
  have inv: "(1 :: real) / 2 powr of_int (1 - int p) = 2 powr of_int (int p - 1)"
    by (simp add: powr_minus[symmetric] divide_inverse)
  have m: "(1 + t) / 2 powr of_int (1 - int p) = of_int (2 ^ (p - 1)) + t * 2 ^ (p - 1)"
  proof -
    have "(1 + t) / 2 powr of_int (1 - int p) = (1 + t) * (1 / 2 powr of_int (1 - int p))" by simp
    also have "\<dots> = (1 + t) * 2 ^ (p - 1)" unfolding inv pow ..
    finally show ?thesis by (simp add: algebra_simps)
  qed
  have fl: "\<lfloor>of_int (2 ^ (p - 1)) + t * 2 ^ (p - 1)\<rfloor> = (2 ^ (p - 1) :: int)"
  proof (rule floor_unique)
    show "of_int (2 ^ (p - 1)) \<le> of_int (2 ^ (p - 1)) + t * 2 ^ (p - 1)" using assms(1) by simp
    show "of_int (2 ^ (p - 1)) + t * 2 ^ (p - 1) < of_int (2 ^ (p - 1)) + 1" using assms(2) by simp
  qed
  have r: "round_half_even (of_int (2 ^ (p - 1)) + t * 2 ^ (p - 1)) = 2 ^ (p - 1)"
    unfolding round_half_even_def fl using assms(2) by (simp add: Let_def)
  have one: "(2 ^ (p - 1) :: real) * 2 powr of_int (1 - int p) = 1"
    unfolding pow[symmetric] by (simp add: powr_add[symmetric])
  have ne: "1 + t \<noteq> 0" using assms(1) by simp
  have abs: "\<bar>1 + t\<bar> = 1 + t" using assms(1) by simp
  have e: "\<lfloor>log 2 \<bar>1 + t\<bar>\<rfloor> - int p + 1 = 1 - int p" unfolding abs k by simp
  show ?thesis
    unfolding float_round_def Let_def e using ne m r one by simp
qed

lemma float_round_one: "0 < p \<Longrightarrow> float_round p 1 = 1"
  using float_round_near_one[of 0 p] by simp

lemma float_round_mono:
  assumes "0 < x" and "x \<le> y" and "0 < p"
  shows "float_round p x \<le> float_round p y"
proof -
  from assms have y: "0 < y" by simp
  have k: "\<lfloor>log 2 x\<rfloor> \<le> \<lfloor>log 2 y\<rfloor>"
    using assms(1,2) by (intro floor_mono) simp
  show ?thesis
  proof (cases "\<lfloor>log 2 x\<rfloor> = \<lfloor>log 2 y\<rfloor>")
    case True
    define e where "e = \<lfloor>log 2 x\<rfloor> - int p + 1"
    have pe: "0 < 2 powr (of_int e :: real)" by simp
    have "x / 2 powr of_int e \<le> y / 2 powr of_int e"
      using assms(2) pe by (simp add: divide_right_mono)
    then have "round_half_even (x / 2 powr of_int e) \<le> round_half_even (y / 2 powr of_int e)"
      by (rule round_half_even_mono)
    then have "of_int (round_half_even (x / 2 powr of_int e)) * 2 powr (of_int e :: real)
                 \<le> of_int (round_half_even (y / 2 powr of_int e)) * 2 powr of_int e"
      using pe by (simp only: mult_le_cancel_right_pos of_int_le_iff)
    then show ?thesis
      using assms(1) y True by (simp add: float_round_def Let_def e_def)
  next
    case False
    with k have "\<lfloor>log 2 x\<rfloor> + 1 \<le> \<lfloor>log 2 y\<rfloor>" by simp
    then have "(2 :: real) powr of_int (\<lfloor>log 2 x\<rfloor> + 1) \<le> 2 powr of_int \<lfloor>log 2 y\<rfloor>"
      by simp
    with float_round_pos_bounds(2)[OF assms(1,3)] float_round_pos_bounds(1)[OF y assms(3)]
    show ?thesis by linarith
  qed
qed

lemma float_round_pos: "0 < x \<Longrightarrow> 0 < p \<Longrightarrow> 0 < float_round p x"
  using float_round_pos_bounds(1)[of x p] powr_gt_zero[of 2 "of_int \<lfloor>log 2 x\<rfloor>"]
  by linarith

lemma float_round_ge_one: "1 \<le> x \<Longrightarrow> 0 < p \<Longrightarrow> 1 \<le> float_round p x"
  using float_round_mono[of 1 x p] by (simp add: float_round_one)

lemma float_round_le_one: "0 < x \<Longrightarrow> x \<le> 1 \<Longrightarrow> 0 < p \<Longrightarrow> float_round p x \<le> 1"
  using float_round_mono[of x 1 p] by (simp add: float_round_one)

lemma relevance_score_pyfloat:
  "float_val (relevance_score (make_source i info (Float d :: 'p::len pyfloat))) =
     float_round LENGTH('p) (1 / float_round LENGTH('p) (1 + d))"
  by (simp add: make_source_def one_pyfloat_def plus_pyfloat_def divide_pyfloat_def)

lemma float_score_bounds:
  assumes "0 \<le> d" and "0 < p"
  shows "0 < float_round p (1 / float_round p (1 + d))"
    and "float_round p (1 / float_round p (1 + d)) \<le> 1"
proof -
  have ge: "1 \<le> float_round p (1 + d)" using assms by (intro float_round_ge_one) simp_all
  then have q: "0 < 1 / float_round p (1 + d)" "1 / float_round p (1 + d) \<le> 1" by simp_all
  from q(1) assms(2) show "0 < float_round p (1 / float_round p (1 + d))" by (rule float_round_pos)
  from q assms(2) show "float_round p (1 / float_round p (1 + d)) \<le> 1" by (rule float_round_le_one)
qed

lemma float_score_antimono:
  assumes "0 \<le> d" and "d \<le> d'" and "0 < p"
  shows "float_round p (1 / float_round p (1 + d')) \<le> float_round p (1 / float_round p (1 + d))"
proof -
  have ge: "1 \<le> float_round p (1 + d)" using assms by (intro float_round_ge_one) simp_all
  have le: "float_round p (1 + d) \<le> float_round p (1 + d')"
    using assms by (intro float_round_mono) simp_all
  with ge have pos': "0 < float_round p (1 + d')" by linarith
  from ge le have "1 / float_round p (1 + d') \<le> 1 / float_round p (1 + d)"
    by (intro divide_left_mono) (simp_all add: pos' mult_pos_pos)
  moreover from pos' have "0 < 1 / float_round p (1 + d')" by simp
  ultimately show ?thesis using assms(3) by (intro float_round_mono)
qed

text \<open>
  Claim C8, amended. For a citation with raw distance \<open>d\<close> that is not negative, the
  relevance score is \<open>1 / (1 + d)\<close> evaluated in floating-point arithmetic, the sum and
  the quotient each rounded to nearest; it lies in \<open>(0, 1]\<close>, and a smaller distance
  never has a smaller score. In exact arithmetic (any ordered field) the score equals
  \<open>1 / (1 + d)\<close>, lies in \<open>(0, 1]\<close> and is strictly larger for a strictly smaller
  distance; after rounding it need not be.
\<close>

theorem relevance_score_rounded:
  "(0 \<le> d \<and> d \<le> d' \<longrightarrow>
      float_val (relevance_score (make_source i info (Float d :: 'p::len pyfloat)))
        = float_round LENGTH('p) (1 / float_round LENGTH('p) (1 + d))
    \<and> 0 < float_val (relevance_score (make_source i info (Float d :: 'p pyfloat)))
    \<and> float_val (relevance_score (make_source i info (Float d :: 'p pyfloat))) \<le> 1
    \<and> float_val (relevance_score (make_source i info (Float d' :: 'p pyfloat)))
        \<le> float_val (relevance_score (make_source i info (Float d :: 'p pyfloat))))
   \<and> (0 \<le> x \<longrightarrow>
        relevance_score (make_source i info (x :: 'a::linordered_field)) = 1 / (1 + x)
      \<and> 0 < relevance_score (make_source i info x)
      \<and> relevance_score (make_source i info x) \<le> 1
      \<and> (x < y \<longrightarrow> relevance_score (make_source i info y) < relevance_score (make_source i info x)))"
proof (intro conjI impI; (elim conjE)?)
  assume d: "0 \<le> d" "d \<le> d'"
  have p: "0 < LENGTH('p)" by simp
  show "float_val (relevance_score (make_source i info (Float d :: 'p pyfloat)))
        = float_round LENGTH('p) (1 / float_round LENGTH('p) (1 + d))"
    by (rule relevance_score_pyfloat)
  show "0 < float_val (relevance_score (make_source i info (Float d :: 'p pyfloat)))"
    unfolding relevance_score_pyfloat using d(1) p by (rule float_score_bounds)
  show "float_val (relevance_score (make_source i info (Float d :: 'p pyfloat))) \<le> 1"
    unfolding relevance_score_pyfloat using d(1) p by (rule float_score_bounds)
  show "float_val (relevance_score (make_source i info (Float d' :: 'p pyfloat)))
        \<le> float_val (relevance_score (make_source i info (Float d :: 'p pyfloat)))"
    unfolding relevance_score_pyfloat using d p by (rule float_score_antimono)
next
  assume "0 \<le> x"
  then show "relevance_score (make_source i info x) = 1 / (1 + x)"
    "0 < relevance_score (make_source i info x)"
    "relevance_score (make_source i info x) \<le> 1"
    by (simp_all add: make_source_def add_pos_nonneg)
next
  assume "0 \<le> x" "x < y"
  then show "relevance_score (make_source i info y) < relevance_score (make_source i info x)"
    by (simp add: make_source_def frac_less2 add_pos_nonneg)
qed

theorem relevance_score_rounded_witness:
  "0 < float_val (relevance_score (make_source ''d1'' (ex_record ''d1'' ''Lockout'' ''sop'' 2)
                                    (Float 1 :: 53 pyfloat)))
   \<and> float_val (relevance_score (make_source ''d1'' (ex_record ''d1'' ''Lockout'' ''sop'' 2)
                                    (Float 3 :: 53 pyfloat)))
       \<le> float_val (relevance_score (make_source ''d1'' (ex_record ''d1'' ''Lockout'' ''sop'' 2)
                                    (Float 1 :: 53 pyfloat)))
   \<and> relevance_score (make_source ''d1'' (ex_record ''d1'' ''Lockout'' ''sop'' 2) (3 :: rat))
       < relevance_score (make_source ''d1'' (ex_record ''d1'' ''Lockout'' ''sop'' 2) 1)"
  using relevance_score_rounded[where d=1 and d'=3 and x="1::rat" and y=3 and i="''d1''"
          and info="ex_record ''d1'' ''Lockout'' ''sop'' 2" and 'p=53]
  by simp

text \<open>
  Claim C8 as stated fails in floating point: the distances \<open>0\<close> and \<open>1 / 2 ^ 60\<close>, both
  floats and the first strictly smaller, have the same relevance score 1, at 53 bits and
  at 24 bits of precision, because \<open>1 + 1 / 2 ^ 60\<close> rounds to 1.
\<close>

theorem relevance_score_strict_counterexample:
  "(0 :: real) < 1 / 2 ^ 60
   \<and> float_val (relevance_score (make_source ''d1'' (ex_record ''d1'' ''Lockout'' ''sop'' 2)
                                    (Float 0 :: 53 pyfloat))) = 1
   \<and> float_val (relevance_score (make_source ''d1'' (ex_record ''d1'' ''Lockout'' ''sop'' 2)
                                    (Float (1 / 2 ^ 60) :: 53 pyfloat))) = 1
   \<and> float_val (relevance_score (make_source ''d1'' (ex_record ''d1'' ''Lockout'' ''sop'' 2)
                                    (Float 0 :: 24 pyfloat))) = 1
   \<and> float_val (relevance_score (make_source ''d1'' (ex_record ''d1'' ''Lockout'' ''sop'' 2)
                                    (Float (1 / 2 ^ 60) :: 24 pyfloat))) = 1"
proof -
  have a: "float_round 53 (1 + 0) = 1" by (rule float_round_near_one) simp_all
  have b: "float_round 53 (1 + 1 / 2 ^ 60) = 1" by (rule float_round_near_one) simp_all
  have c: "float_round 24 (1 + 0) = 1" by (rule float_round_near_one) simp_all
  have d: "float_round 24 (1 + 1 / 2 ^ 60) = 1" by (rule float_round_near_one) simp_all
  have one: "float_round 53 1 = 1" "float_round 24 1 = 1" by (simp_all add: float_round_one)
  show ?thesis
    unfolding relevance_score_pyfloat using a b c d one by simp
qed

end
